theory Spec2Isabelle
  imports Complex_Main
begin

section \<open>RT-structure contours to voxel masks (mirp, imageDicomFileRTSTRUCT.py)\<close>

text \<open>
  A shallow embedding of \<^verbatim>\<open>MaskDicomFileRTSTRUCT\<close>. numpy's float64 arrays are modelled
  over \<open>real\<close>: a point is a triple, an N x 3 array a list of triples, a 3 x 3 matrix a
  triple of rows. Python exceptions are values of \<open>error\<close>; a function that can raise
  returns \<open>error + 'a\<close>.
\<close>

subsection \<open>Data model\<close>

datatype error = TypeError | ValueError | IndexError | NotImplementedError | ArithmeticError

type_synonym vec3 = "real \<times> real \<times> real"
type_synonym mat3 = "vec3 \<times> vec3 \<times> vec3"
type_synonym sub_contour = "vec3 list"

text \<open>\<^verbatim>\<open>ContourClass\<close>: its attribute \<^verbatim>\<open>contour\<close> is a list of N x 3 point arrays.\<close>

record ContourClass =
  contour :: "sub_contour list"

text \<open>
  One item of the Contour Sequence (3006,0040) of an ROI contour sequence. A tag that is
  absent is \<open>None\<close>. The Contour Image Sequence (3006,0016) is the list of the
  Referenced SOP Instance UIDs (0008,1155) of its items, each of which may be missing.
\<close>

record contour_sequence =
  contour_geometric_type :: "string option"
  contour_data :: "real list option"
  contour_offset :: "vec3 option"
  contour_image_sequence :: "string option list option"

record roi_contour_sequence =
  referenced_roi_number :: "int option"
  contour_sequences :: "contour_sequence list"

text \<open>
  The reference image. \<^verbatim>\<open>ImageDicomFile\<close> holds one SOP instance UID,
  \<^verbatim>\<open>ImageDicomFileStack\<close> a list of them; any other \<^verbatim>\<open>ImageFile\<close> exposes none.
\<close>

datatype image_class =
    ImageDicomFile "string option"
  | ImageDicomFileStack "string list option"
  | ImageGenericFile

record ImageFile =
  image_class :: image_class
  image_series_instance_uid :: "string option"
  image_origin :: vec3
  image_spacing :: vec3
  image_dimension :: "int \<times> int \<times> int"
  image_orientation :: mat3

text \<open>
  The structure set itself: the fields of \<^verbatim>\<open>self\<close> and of \<^verbatim>\<open>self.image_metadata\<close>
  that the conversion reads. \<open>structure_set_roi_sequence\<close> (3006,0020) is \<open>None\<close> when the
  tag is absent, else the (ROI name, ROI number) of every item.
  \<open>referenced_frame_of_reference\<close> is \<open>None\<close> unless (3006,0010) and, in its first item,
  (3006,0012) are present; else it lists, per RT Referenced Series item (3006,0014), the
  referenced SOP instance UIDs of its Contour Image Sequence.
\<close>

datatype roi_selection =
    AllRois
  | RoiName string
  | RoiNames "string list"
  | RoiMap "(string \<times> string) list"

record MaskDicomFileRTSTRUCT =
  series_instance_uid :: "string option"
  sample_name :: "string option"
  modality :: "string option"
  roi_name :: roi_selection
  structure_set_roi_sequence :: "(string option \<times> int option) list option"
  roi_contour_sequences :: "roi_contour_sequence list"
  referenced_frame_of_reference :: "string option list list option"

subsection \<open>numpy helpers\<close>

text \<open>\<^verbatim>\<open>np.isclose(a, b)\<close> with the default \<^verbatim>\<open>rtol = 1e-05\<close>, \<^verbatim>\<open>atol = 1e-08\<close>.\<close>

definition isclose :: "real \<Rightarrow> real \<Rightarrow> bool" where
  "isclose a b = (\<bar>a - b\<bar> \<le> 1 / 100000000 + (1 / 100000) * \<bar>b\<bar>)"

definition allclose :: "real list \<Rightarrow> real \<Rightarrow> bool" where
  "allclose as b = list_all (\<lambda>a. isclose a b) as"

text \<open>\<^verbatim>\<open>np.round\<close>: to the nearest integer, a tie to the even one.\<close>

definition np_round :: "real \<Rightarrow> real" where
  "np_round x =
     (let f = \<lfloor>x\<rfloor>; d = x - of_int f
      in if d < 1 / 2 then of_int f
         else if 1 / 2 < d then of_int (f + 1)
         else if even f then of_int f else of_int (f + 1))"

definition np_unique :: "real list \<Rightarrow> real list" where
  "np_unique xs = sort (remdups xs)"

fun np_diff :: "real list \<Rightarrow> real list" where
  "np_diff (x # y # rest) = (y - x) # np_diff (y # rest)"
| "np_diff _ = []"

text \<open>\<^verbatim>\<open>np.min\<close> and \<^verbatim>\<open>np.max\<close> raise ValueError on an empty array.\<close>

definition np_min :: "real list \<Rightarrow> error + real" where
  "np_min xs = (case xs of [] \<Rightarrow> Inl ValueError | x # rest \<Rightarrow> Inr (fold min rest x))"

definition np_max :: "real list \<Rightarrow> error + real" where
  "np_max xs = (case xs of [] \<Rightarrow> Inl ValueError | x # rest \<Rightarrow> Inr (fold max rest x))"

subsection \<open>Coordinate transformer\<close>

definition det3 :: "mat3 \<Rightarrow> real" where
  "det3 m = (case m of ((a, b, c), (d, e, f), (g, h, i)) \<Rightarrow>
     a * (e * i - f * h) - b * (d * i - f * g) + c * (d * h - e * g))"

definition inverse3 :: "mat3 \<Rightarrow> mat3" where
  "inverse3 m = (case m of ((a, b, c), (d, e, f), (g, h, i)) \<Rightarrow>
     let t = det3 m in
       (((e * i - f * h) / t, (c * h - b * i) / t, (b * f - c * e) / t),
        ((f * g - d * i) / t, (a * i - c * g) / t, (c * d - a * f) / t),
        ((d * h - e * g) / t, (b * g - a * h) / t, (a * e - b * d) / t)))"

definition mat_vec :: "mat3 \<Rightarrow> vec3 \<Rightarrow> vec3" where
  "mat_vec m v = (case m of ((a, b, c), (d, e, f), (g, h, i)) \<Rightarrow> case v of (x, y, z) \<Rightarrow>
     (a * x + b * y + c * z, d * x + e * y + f * z, g * x + h * y + i * z))"

text \<open>
  Modelled from the spec: \<^verbatim>\<open>ImageFile.to_voxel_coordinates\<close> (imageGenericFile.py) is
  not part of the sources at hand. Section 4.1 of the specification gives
  \<^verbatim>\<open>voxel = inverse(orientation) . (point - origin) / spacing\<close>, the division taken
  component-wise after the rotation, with origin, orientation and spacing overridable.
  Points carry the slice axis first, as origin, spacing and dimension do.
\<close>

definition to_voxel_coordinates :: "vec3 \<Rightarrow> mat3 \<Rightarrow> vec3 \<Rightarrow> vec3 \<Rightarrow> vec3" where
  "to_voxel_coordinates origin orientation spacing x =
     (case x of (x0, x1, x2) \<Rightarrow> case origin of (o0, o1, o2) \<Rightarrow> case spacing of (s0, s1, s2) \<Rightarrow>
        case mat_vec (inverse3 orientation) (x0 - o0, x1 - o1, x2 - o2) of (r0, r1, r2) \<Rightarrow>
          (r0 / s0, r1 / s1, r2 / s2))"

text \<open>
  Modelled from the spec: \<^verbatim>\<open>ContourClass.to_voxel_coordinates(image)\<close> (maskContour.py)
  is not part of the sources at hand; it moves every point of every sub-contour into the
  voxel space of \<open>image\<close>.
\<close>

definition contour_to_voxel_coordinates :: "ImageFile \<Rightarrow> ContourClass \<Rightarrow> ContourClass" where
  "contour_to_voxel_coordinates img c =
     \<lparr>contour = map (map (to_voxel_coordinates (image_origin img) (image_orientation img)
        (image_spacing img))) (contour c)\<rparr>"

subsection \<open>Collecting the contours of an ROI\<close>

text \<open>\<^verbatim>\<open>contour_data.reshape((-1, 3))\<close>: ValueError unless the length is a multiple of 3.\<close>

fun reshape3 :: "real list \<Rightarrow> error + vec3 list" where
  "reshape3 [] = Inr []"
| "reshape3 (a # b # c # rest) =
     (case reshape3 rest of Inl e \<Rightarrow> Inl e | Inr ps \<Rightarrow> Inr ((a, b, c) # ps))"
| "reshape3 _ = Inl ValueError"

definition subtract_offset :: "vec3 \<Rightarrow> vec3 \<Rightarrow> vec3" where
  "subtract_offset off p = (case p of (a, b, c) \<Rightarrow> case off of (u, v, w) \<Rightarrow> (a - u, b - v, c - w))"

fun collect_contour_objects :: "contour_sequence list \<Rightarrow> error + ContourClass list" where
  "collect_contour_objects [] = Inr []"
| "collect_contour_objects (cs # rest) =
     (if contour_geometric_type cs = None then collect_contour_objects rest
      else if contour_geometric_type cs \<noteq> Some ''CLOSED_PLANAR'' then collect_contour_objects rest
      else case contour_data cs of
        None \<Rightarrow> collect_contour_objects rest
      | Some d \<Rightarrow>
          (case reshape3 d of
             Inl e \<Rightarrow> Inl e
           | Inr ps \<Rightarrow>
               (case collect_contour_objects rest of
                  Inl e \<Rightarrow> Inl e
                | Inr objs \<Rightarrow>
                    Inr (\<lparr>contour = [map (subtract_offset
                           (case contour_offset cs of None \<Rightarrow> (0, 0, 0) | Some off \<Rightarrow> off)) ps]\<rparr>
                         # objs))))"

definition collect_contours :: "roi_contour_sequence \<Rightarrow> error + ContourClass list option" where
  "collect_contours roi =
     (case collect_contour_objects (contour_sequences roi) of
        Inl e \<Rightarrow> Inl e
      | Inr objs \<Rightarrow> Inr (if length objs = 0 then None else Some objs))"

subsection \<open>Reference strategy: \<^verbatim>\<open>_convert_contour_using_image\<close>\<close>

definition reference_series_instance_uid :: "ImageFile \<Rightarrow> string option" where
  "reference_series_instance_uid img =
     (case image_class img of
        ImageGenericFile \<Rightarrow> None
      | _ \<Rightarrow> image_series_instance_uid img)"

definition series_uid_correct :: "MaskDicomFileRTSTRUCT \<Rightarrow> ImageFile \<Rightarrow> bool" where
  "series_uid_correct self img =
     (case reference_series_instance_uid img of
        None \<Rightarrow> False
      | Some u \<Rightarrow> series_instance_uid self = Some u)"

definition reference_sop_instance_uid :: "ImageFile \<Rightarrow> string list option" where
  "reference_sop_instance_uid img =
     (case image_class img of
        ImageDicomFile (Some u) \<Rightarrow> Some [u]
      | ImageDicomFileStack (Some us) \<Rightarrow> Some us
      | _ \<Rightarrow> None)"

text \<open>
  The pooled list \<^verbatim>\<open>referenced_sop_uids\<close>: first the UIDs of the contour image sequences
  of the ROI's contours, then those of the referenced frame of reference sequence, with
  the missing ones (\<^verbatim>\<open>None\<close>) filtered out.
\<close>

definition referenced_sop_uids :: "MaskDicomFileRTSTRUCT \<Rightarrow> roi_contour_sequence \<Rightarrow> string list" where
  "referenced_sop_uids self roi =
     List.map_filter (\<lambda>u. u)
       (concat (map (\<lambda>cs. case contour_image_sequence cs of None \<Rightarrow> [] | Some l \<Rightarrow> l)
                  (contour_sequences roi))
        @ (case referenced_frame_of_reference self of None \<Rightarrow> [] | Some series \<Rightarrow> concat series))"

definition sop_uid_correct :: "MaskDicomFileRTSTRUCT \<Rightarrow> roi_contour_sequence \<Rightarrow> ImageFile \<Rightarrow> bool" where
  "sop_uid_correct self roi img =
     (case reference_sop_instance_uid img of
        None \<Rightarrow> False
      | Some ref \<Rightarrow>
          (if length (referenced_sop_uids self roi) > 1
           then set (referenced_sop_uids self roi) \<subseteq> set ref
           else False))"

text \<open>
  The loop over every sub-contour of every contour: \<^verbatim>\<open>sub_contour[0, 0]\<close> raises
  IndexError on an array without points.
\<close>

fun check_planes :: "sub_contour list \<Rightarrow> bool \<Rightarrow> bool \<Rightarrow> error + (bool \<times> bool)" where
  "check_planes [] orientation_correct position_correct =
     Inr (orientation_correct, position_correct)"
| "check_planes (sc # rest) orientation_correct position_correct =
     (case sc of
        [] \<Rightarrow> Inl IndexError
      | p # _ \<Rightarrow>
          check_planes rest
            (if \<not> allclose (map fst sc) (fst p) then False else orientation_correct)
            (if \<not> isclose (np_round (fst p)) (fst p) then False else position_correct))"

definition sub_contours_of :: "ContourClass list \<Rightarrow> sub_contour list" where
  "sub_contours_of objs = concat (map contour objs)"

text \<open>\<^verbatim>\<open>[sub_contour[0, 0] for contour in contour_objects for sub_contour in contour.contour]\<close>\<close>

definition slice_positions :: "sub_contour list \<Rightarrow> real list" where
  "slice_positions subs = concat (map (\<lambda>sc. case sc of [] \<Rightarrow> [] | p # _ \<Rightarrow> [fst p]) subs)"

definition convert_contour_using_image ::
  "MaskDicomFileRTSTRUCT \<Rightarrow> roi_contour_sequence \<Rightarrow> ImageFile option \<Rightarrow> error + (bool \<times> bool \<times> bool)" where
  "convert_contour_using_image self roi image_opt =
     (case image_opt of
        None \<Rightarrow> Inr (False, False, False)
      | Some img \<Rightarrow>
          (case collect_contours roi of
             Inl e \<Rightarrow> Inl e
           | Inr None \<Rightarrow> Inr (True, True, True)
           | Inr (Some objs) \<Rightarrow>
               (let subs = sub_contours_of (map (contour_to_voxel_coordinates img) objs) in
                case check_planes subs True True of
                  Inl e \<Rightarrow> Inl e
                | Inr (orientation_correct, position_correct) \<Rightarrow>
                    if \<not> orientation_correct then Inr (False, orientation_correct, position_correct)
                    else if \<not> position_correct then Inr (False, orientation_correct, position_correct)
                    else let slice_position = np_unique (slice_positions subs) in
                      if length slice_position = 1 then Inr (True, True, True)
                      else (case np_min (np_diff slice_position) of
                              Inl e \<Rightarrow> Inl e
                            | Inr gap \<Rightarrow>
                                if \<not> isclose gap 1 \<and> \<not> sop_uid_correct self roi img
                                   \<and> \<not> series_uid_correct self img
                                then Inr (False, True, False)
                                else Inr (True, True, True)))))"

subsection \<open>Collaborators that are not part of the sources at hand\<close>

text \<open>
  The methods of \<^verbatim>\<open>ContourClass\<close> and \<^verbatim>\<open>ImageFile\<close> and the library routines that the
  conversion calls and whose code is elsewhere are parameters of the model:
  \<^item> \<open>which_slice\<close>: \<^verbatim>\<open>ContourClass.which_slice()\<close>, the slice indices a contour occupies;
  \<^item> \<open>merge_contours_of\<close>: \<^verbatim>\<open>ContourClass.merge(other_contours, slice_id)\<close>;
  \<^item> \<open>contour_to_grid_ray_cast\<close>: \<^verbatim>\<open>ContourClass.contour_to_grid_ray_cast(image)\<close>, the
    rasterized slices of a merged contour, each a slice position with its 2D boolean grid
    (the source receives them as two lists of equal length);
  \<^item> \<open>get_slice_position\<close>: \<^verbatim>\<open>ImageFile.get_slice_position()\<close>, the known slice positions;
  \<^item> \<open>svd_U\<close>: the matrix \<^verbatim>\<open>U\<close> of \<^verbatim>\<open>np.linalg.svd\<close> for the 3 x N matrix whose
    columns are the given points.
  Every theorem below holds for all values of these parameters.
\<close>

record collaborators =
  which_slice :: "ContourClass \<Rightarrow> int list"
  merge_contours_of :: "ContourClass \<Rightarrow> ContourClass list option \<Rightarrow> int \<Rightarrow> ContourClass"
  contour_to_grid_ray_cast :: "ContourClass \<Rightarrow> ImageFile \<Rightarrow> (real \<times> bool list list) list"
  get_slice_position :: "ImageFile \<Rightarrow> real list"
  svd_U :: "vec3 list \<Rightarrow> mat3"

subsection \<open>Synthetic grid: \<^verbatim>\<open>_create_image_from_contour\<close>\<close>

text \<open>\<^verbatim>\<open>points.T - np.mean(points.T, axis=1, keepdims=True)\<close>\<close>

definition mean_centre :: "vec3 list \<Rightarrow> vec3 list" where
  "mean_centre points =
     (let n = real (length points);
          m0 = sum_list (map fst points) / n;
          m1 = sum_list (map (fst \<circ> snd) points) / n;
          m2 = sum_list (map (snd \<circ> snd) points) / n
      in map (\<lambda>(a, b, c). (a - m0, b - m1, c - m2)) points)"

text \<open>\<^verbatim>\<open>svd.U[:, (2, 1, 0)]\<close>: the columns in reversed order.\<close>

definition reverse_columns :: "mat3 \<Rightarrow> mat3" where
  "reverse_columns m = (case m of ((a, b, c), (d, e, f), (g, h, i)) \<Rightarrow>
     ((c, b, a), (f, e, d), (i, h, g)))"

text \<open>The loop over \<^verbatim>\<open>ii in range(3)\<close>: a column whose sum is negative is negated.\<close>

definition flip_negative_columns :: "mat3 \<Rightarrow> mat3" where
  "flip_negative_columns m = (case m of ((a, b, c), (d, e, f), (g, h, i)) \<Rightarrow>
     (let s0 = (if a + d + g < 0 then - 1 else 1);
          s1 = (if b + e + h < 0 then - 1 else 1);
          s2 = (if c + f + i < 0 then - 1 else 1)
      in ((s0 * a, s1 * b, s2 * c), (s0 * d, s1 * e, s2 * f), (s0 * g, s1 * h, s2 * i))))"

definition mask_orientation_of :: "mat3 \<Rightarrow> mat3" where
  "mask_orientation_of U =
     (let mask_orientation = reverse_columns U
      in if det3 mask_orientation = - 1 then flip_negative_columns mask_orientation
         else mask_orientation)"

text \<open>
  The points handed to the decomposition:
  \<^verbatim>\<open>np.vstack([sub_contour for sub_contour in contour_objects[0].contour])\<close>.
\<close>

definition orientation_points :: "ContourClass list \<Rightarrow> error + vec3 list" where
  "orientation_points contour_objects =
     (case contour_objects of
        [] \<Rightarrow> Inl IndexError
      | first # _ \<Rightarrow> (if contour first = [] then Inl ValueError else Inr (concat (contour first))))"

text \<open>
  The spacing, origin and dimension of the branch \<^verbatim>\<open>if not use_position\<close>, from the
  points projected into the frame of \<open>mask_orientation\<close> (zero origin, unit spacing).
  A template spacing of zero makes the division fail (ZeroDivisionError, or an infinite
  or undefined quotient that \<^verbatim>\<open>int\<close> refuses): the model returns ArithmeticError.
\<close>

definition np_ceil_int :: "real \<Rightarrow> int" where
  "np_ceil_int x = \<lceil>x\<rceil>"

definition synthetic_grid ::
  "vec3 \<Rightarrow> vec3 list \<Rightarrow> error + (vec3 \<times> vec3 \<times> (int \<times> int \<times> int))" where
  "synthetic_grid template_spacing projected =
     (let zs = np_unique (map fst projected);
          ys = np_unique (map (fst \<circ> snd) projected);
          xs = np_unique (map (snd \<circ> snd) projected)
      in case np_min (np_diff zs) of
           Inl e \<Rightarrow> Inl e
         | Inr mask_z_spacing \<Rightarrow>
             (let mask_y_spacing = fst (snd template_spacing);
                  mask_x_spacing = snd (snd template_spacing)
              in if mask_y_spacing = 0 \<or> mask_x_spacing = 0 then Inl ArithmeticError
                 else case (np_min zs, np_min ys, np_min xs, np_max zs, np_max ys, np_max xs) of
                   (Inr z_min, Inr y_min, Inr x_min, Inr z_max, Inr y_max, Inr x_max) \<Rightarrow>
                     (let mask_z_origin = z_min;
                          mask_y_origin = y_min - mask_y_spacing;
                          mask_x_origin = x_min - mask_x_spacing
                      in Inr ((mask_z_spacing, mask_y_spacing, mask_x_spacing),
                              (mask_z_origin, mask_y_origin, mask_x_origin),
                              (np_ceil_int ((z_max - mask_z_origin) / mask_z_spacing),
                               np_ceil_int ((y_max - mask_y_origin) / mask_y_spacing) + 1,
                               np_ceil_int ((x_max - mask_x_origin) / mask_x_spacing) + 1)))
                 | _ \<Rightarrow> Inl ValueError))"

definition project_contours :: "mat3 \<Rightarrow> ContourClass list \<Rightarrow> vec3 list" where
  "project_contours mask_orientation contour_objects =
     concat (map (map (to_voxel_coordinates (0, 0, 0) mask_orientation (1, 1, 1)))
               (sub_contours_of contour_objects))"

definition create_image_from_contour ::
  "collaborators \<Rightarrow> roi_contour_sequence \<Rightarrow> ImageFile \<Rightarrow> bool \<Rightarrow> bool \<Rightarrow> error + ImageFile" where
  "create_image_from_contour c roi img use_orientation_arg use_position =
     (case collect_contours roi of
        Inl e \<Rightarrow> Inl e
      | Inr None \<Rightarrow> Inl TypeError
      | Inr (Some contour_objects) \<Rightarrow>
          (let use_orientation = False in
           case (if \<not> use_orientation
                 then (case orientation_points contour_objects of
                         Inl e \<Rightarrow> Inl e
                       | Inr points \<Rightarrow> Inr (mask_orientation_of (svd_U c (mean_centre points))))
                 else Inr (image_orientation img)) of
             Inl e \<Rightarrow> Inl e
           | Inr mask_orientation \<Rightarrow>
               (if \<not> use_position
                then (case synthetic_grid (image_spacing img)
                             (project_contours mask_orientation contour_objects) of
                        Inl e \<Rightarrow> Inl e
                      | Inr (mask_spacing, mask_origin, mask_dimension) \<Rightarrow>
                          Inr (img\<lparr>image_spacing := mask_spacing, image_origin := mask_origin,
                                   image_dimension := mask_dimension,
                                   image_orientation := mask_orientation\<rparr>))
                else Inr (img\<lparr>image_orientation := mask_orientation\<rparr>))))"

subsection \<open>Slice matching: \<^verbatim>\<open>_match_slice_position\<close>\<close>

text \<open>\<^verbatim>\<open>np.around(x, 3)\<close>\<close>

definition np_around3 :: "real \<Rightarrow> real" where
  "np_around3 x = np_round (x * 1000) / 1000"

text \<open>
  \<^verbatim>\<open>np.argwhere(position_difference == 0.0)\<close> lists the matching indices; \<^verbatim>\<open>int\<close> of
  it is the index when there is exactly one, and raises TypeError when there are more.
\<close>

definition position_difference :: "real \<Rightarrow> real list \<Rightarrow> real \<Rightarrow> real list" where
  "position_difference slice_position known_position image_spacing_z =
     map (\<lambda>k. np_around3 \<bar>slice_position * image_spacing_z - k\<bar>) known_position"

definition argwhere_zero :: "real list \<Rightarrow> nat list" where
  "argwhere_zero ds = filter (\<lambda>i. ds ! i = 0) [0..<length ds]"

definition match_slice_position :: "real \<Rightarrow> real list \<Rightarrow> real \<Rightarrow> error + int option" where
  "match_slice_position slice_position known_position image_spacing_z =
     (let hits = argwhere_zero (position_difference slice_position known_position image_spacing_z)
      in if hits \<noteq> []
         then (case hits of [i] \<Rightarrow> Inr (Some (int i)) | _ \<Rightarrow> Inl TypeError)
         else Inr None)"

fun match_all :: "real list \<Rightarrow> real list \<Rightarrow> real \<Rightarrow> error + int option list" where
  "match_all [] known_position image_spacing_z = Inr []"
| "match_all (p # ps) known_position image_spacing_z =
     (case match_slice_position p known_position image_spacing_z of
        Inl e \<Rightarrow> Inl e
      | Inr m \<Rightarrow>
          (case match_all ps known_position image_spacing_z of
             Inl e \<Rightarrow> Inl e
           | Inr ms \<Rightarrow> Inr (m # ms)))"

text \<open>
  The three filters of \<^verbatim>\<open>convert_contour_to_mask\<close> on the lists \<^verbatim>\<open>mask_list\<close> and
  \<^verbatim>\<open>slice_list\<close>, written with the indices of the source.
\<close>

definition retain_matched :: "'m list \<Rightarrow> int option list \<Rightarrow> 'm list \<times> int list" where
  "retain_matched mask_list slice_list =
     (map (\<lambda>ii. mask_list ! ii) (filter (\<lambda>ii. slice_list ! ii \<noteq> None) [0..<length slice_list]),
      List.map_filter (\<lambda>s. s) slice_list)"

definition retain_non_negative :: "'m list \<Rightarrow> int list \<Rightarrow> 'm list \<times> int list" where
  "retain_non_negative mask_list slice_list =
     (map (\<lambda>ii. mask_list ! ii) (filter (\<lambda>ii. slice_list ! ii \<ge> 0) [0..<length mask_list]),
      filter (\<lambda>slice_id. slice_id \<ge> 0) slice_list)"

definition retain_in_range :: "int \<Rightarrow> 'm list \<Rightarrow> int list \<Rightarrow> 'm list \<times> int list" where
  "retain_in_range dim_z mask_list slice_list =
     (map (\<lambda>ii. mask_list ! ii) (filter (\<lambda>ii. \<bar>slice_list ! ii\<bar> < dim_z) [0..<length mask_list]),
      filter (\<lambda>slice_id. slice_id < dim_z) slice_list)"

text \<open>
  Lines 484 to 516: match, then filter three times; \<open>None\<close> where the source returns
  \<^verbatim>\<open>None\<close> because no slice is left.
\<close>

definition select_slices ::
  "real list \<Rightarrow> int \<Rightarrow> real \<Rightarrow> 'm list \<Rightarrow> real list \<Rightarrow> error + ('m list \<times> int list) option" where
  "select_slices known_position dim_z image_spacing_z mask_list slice_list =
     (case match_all slice_list known_position image_spacing_z of
        Inl e \<Rightarrow> Inl e
      | Inr matched \<Rightarrow>
          (case retain_matched mask_list matched of (mask_list1, slice_list1) \<Rightarrow>
             if length slice_list1 = 0 then Inr None
             else (case retain_non_negative mask_list1 slice_list1 of (mask_list2, slice_list2) \<Rightarrow>
               if length slice_list2 = 0 then Inr None
               else (case retain_in_range dim_z mask_list2 slice_list2 of (mask_list3, slice_list3) \<Rightarrow>
                 if length slice_list3 = 0 then Inr None
                 else Inr (Some (mask_list3, slice_list3))))))"

subsection \<open>Merging the contours of a slice: \<^verbatim>\<open>_merge_contours\<close>\<close>

definition np_unique_int :: "int list \<Rightarrow> int list" where
  "np_unique_int xs = sort (remdups xs)"

definition merge_contours :: "collaborators \<Rightarrow> ContourClass list \<Rightarrow> error + ContourClass list" where
  "merge_contours c contour_objects =
     (if contour_objects = [] then Inl ValueError
      else Inr (concat (map
        (\<lambda>slice_id.
           case filter (\<lambda>obj. slice_id \<in> set (which_slice c obj)) contour_objects of
             [] \<Rightarrow> []
           | parent_contour # others \<Rightarrow>
               [merge_contours_of c parent_contour (if others = [] then None else Some others) slice_id])
        (np_unique_int (concat (map (which_slice c) contour_objects))))))"

subsection \<open>Boolean volumes\<close>

text \<open>
  A numpy array of shape (dz, dy, dx) is a list of dz planes, each a list of dy rows of
  length dx. A voxel is its index (z, y, x).
\<close>

type_synonym grid = "bool list list"
type_synonym volume = "bool list list list"
type_synonym voxel = "nat \<times> nat \<times> nat"

definition indices3 :: "'a list list list \<Rightarrow> voxel list" where
  "indices3 vol =
     concat (map (\<lambda>z. concat (map (\<lambda>y. map (\<lambda>x. (z, y, x)) [0..<length (vol ! z ! y)])
                                  [0..<length (vol ! z)]))
               [0..<length vol])"

definition lookup3 :: "'a list list list \<Rightarrow> voxel \<Rightarrow> 'a" where
  "lookup3 vol v = (case v of (z, y, x) \<Rightarrow> vol ! z ! y ! x)"

definition imap3 :: "(voxel \<Rightarrow> 'a \<Rightarrow> 'b) \<Rightarrow> 'a list list list \<Rightarrow> 'b list list list" where
  "imap3 f vol =
     map (\<lambda>z. map (\<lambda>y. map (\<lambda>x. f (z, y, x) (vol ! z ! y ! x)) [0..<length (vol ! z ! y)])
                  [0..<length (vol ! z)])
         [0..<length vol]"

definition true_voxels :: "volume \<Rightarrow> voxel list" where
  "true_voxels vol = filter (lookup3 vol) (indices3 vol)"

text \<open>\<^verbatim>\<open>np.any\<close>\<close>

definition np_any :: "volume \<Rightarrow> bool" where
  "np_any vol = (true_voxels vol \<noteq> [])"

text \<open>\<^verbatim>\<open>np.zeros(image.image_dimension, dtype=bool)\<close>: ValueError on a negative dimension.\<close>

definition np_zeros :: "int \<times> int \<times> int \<Rightarrow> error + volume" where
  "np_zeros shape = (case shape of (dz, dy, dx) \<Rightarrow>
     if dz < 0 \<or> dy < 0 \<or> dx < 0 then Inl ValueError
     else Inr (replicate (nat dz) (replicate (nat dy) (replicate (nat dx) False))))"

text \<open>
  \<^verbatim>\<open>roi_mask[slice_id, :, :] = np.logical_or(roi_mask[slice_id, :, :], mask)\<close> for a plane
  of shape (dy, dx): numpy broadcasts an axis of length 1 of the mask and raises
  ValueError for any other shape that differs.
\<close>

definition logical_or_into :: "nat \<times> nat \<Rightarrow> grid \<Rightarrow> grid \<Rightarrow> error + grid" where
  "logical_or_into shape plane m = (case shape of (dy, dx) \<Rightarrow>
     (let my = length m; mx = (case m of [] \<Rightarrow> 0 | r # _ \<Rightarrow> length r)
      in if (my = dy \<or> my = 1) \<and> (mx = dx \<or> mx = 1)
         then Inr (map (\<lambda>y. map (\<lambda>x. plane ! y ! x
                          \<or> m ! (if my = 1 then 0 else y) ! (if mx = 1 then 0 else x)) [0..<dx])
                     [0..<dy])
         else Inl ValueError))"

text \<open>
  The loop that sets the slices. The filters before it leave only slice indices within
  the volume; the model returns IndexError for any other.
\<close>

fun set_slices :: "nat \<times> nat \<Rightarrow> volume \<Rightarrow> (int \<times> grid) list \<Rightarrow> error + volume" where
  "set_slices shape roi_mask [] = Inr roi_mask"
| "set_slices shape roi_mask ((slice_id, m) # rest) =
     (if 0 \<le> slice_id \<and> nat slice_id < length roi_mask
      then (case logical_or_into shape (roi_mask ! nat slice_id) m of
              Inl e \<Rightarrow> Inl e
            | Inr plane \<Rightarrow> set_slices shape (roi_mask[nat slice_id := plane]) rest)
      else Inl IndexError)"

subsection \<open>Connected components: \<^verbatim>\<open>skimage.measure.label\<close>\<close>

text \<open>
  \<^verbatim>\<open>skimage.measure.label(roi_mask, connectivity=k, return_num=True)\<close> is a library
  routine. The model follows its documentation: two voxels are neighbours when they
  differ by at most one along every axis, and along at most \<open>k\<close> axes (\<open>k\<close> orthogonal
  hops); the connected regions of true voxels are numbered from 1 in the order in which
  a scan of the array meets them, the background is 0.
\<close>

definition dist_nat :: "nat \<Rightarrow> nat \<Rightarrow> nat" where
  "dist_nat a b = (if a \<le> b then b - a else a - b)"

definition neighbours :: "nat \<Rightarrow> voxel \<Rightarrow> voxel \<Rightarrow> bool" where
  "neighbours connectivity v w = (case v of (z, y, x) \<Rightarrow> case w of (z', y', x') \<Rightarrow>
     dist_nat z z' \<le> 1 \<and> dist_nat y y' \<le> 1 \<and> dist_nat x x' \<le> 1
     \<and> 0 < dist_nat z z' + dist_nat y y' + dist_nat x x'
     \<and> dist_nat z z' + dist_nat y y' + dist_nat x x' \<le> connectivity)"

text \<open>
  The region of \<open>v\<close> among the voxels \<open>S\<close>: start from \<open>v\<close> and add the neighbours of
  what is there, once per voxel of \<open>S\<close> (no region needs more rounds).
\<close>

fun grow :: "('a \<Rightarrow> 'a \<Rightarrow> bool) \<Rightarrow> 'a list \<Rightarrow> nat \<Rightarrow> 'a list \<Rightarrow> 'a list" where
  "grow adj S 0 cur = cur"
| "grow adj S (Suc n) cur =
     grow adj S n (filter (\<lambda>w. w \<in> set cur \<or> list_ex (\<lambda>u. adj u w) cur) S)"

definition region_of :: "('a \<Rightarrow> 'a \<Rightarrow> bool) \<Rightarrow> 'a list \<Rightarrow> 'a \<Rightarrow> 'a list" where
  "region_of adj S v = grow adj S (length S) [v]"

fun label_regions :: "('a \<Rightarrow> 'a \<Rightarrow> bool) \<Rightarrow> 'a list \<Rightarrow> 'a list list" where
  "label_regions adj [] = []"
| "label_regions adj (v # rest) =
     region_of adj (v # rest) v
     # label_regions adj (filter (\<lambda>w. w \<notin> set (region_of adj (v # rest) v)) rest)"

fun label_of :: "'a list list \<Rightarrow> 'a \<Rightarrow> nat" where
  "label_of [] v = 0"
| "label_of (r # rest) v =
     (if v \<in> set r then 1
      else if label_of rest v = 0 then 0 else label_of rest v + 1)"

definition skimage_label :: "nat \<Rightarrow> volume \<Rightarrow> nat list list list \<times> nat" where
  "skimage_label connectivity vol =
     (let regions = label_regions (neighbours connectivity) (true_voxels vol)
      in (imap3 (\<lambda>v b. if b then label_of regions v else 0) vol, length regions))"

text \<open>\<^verbatim>\<open>np.sum(roi_label_mask == k)\<close>\<close>

definition count_label :: "nat list list list \<Rightarrow> nat \<Rightarrow> nat" where
  "count_label labels k = length (filter (\<lambda>v. lookup3 labels v = k) (indices3 labels))"

text \<open>\<^verbatim>\<open>np.argmax\<close>: the first index of the largest entry; ValueError on an empty array.\<close>

definition np_argmax :: "nat list \<Rightarrow> error + nat" where
  "np_argmax xs =
     (case xs of
        [] \<Rightarrow> Inl ValueError
      | x # rest \<Rightarrow>
          (case filter (\<lambda>i. xs ! i = fold max rest x) [0..<length xs] of
             [] \<Rightarrow> Inl ValueError
           | i # _ \<Rightarrow> Inr i))"

definition keep_largest_region :: "volume \<Rightarrow> error + volume" where
  "keep_largest_region roi_mask =
     (case skimage_label 2 roi_mask of (roi_label_mask, n_regions) \<Rightarrow>
        (let roi_sizes = map (\<lambda>ii. count_label roi_label_mask (ii + 1)) [0..<n_regions]
         in case np_argmax roi_sizes of
              Inl e \<Rightarrow> Inl e
            | Inr largest \<Rightarrow> Inr (imap3 (\<lambda>v l. l = largest + 1) roi_label_mask)))"

subsection \<open>\<^verbatim>\<open>convert_contour_to_mask\<close>\<close>

fun rasterize ::
  "collaborators \<Rightarrow> ImageFile \<Rightarrow> string \<Rightarrow> ContourClass list \<Rightarrow> error + (real \<times> grid) list" where
  "rasterize c img draw_method [] = Inr []"
| "rasterize c img draw_method (merged # rest) =
     (if draw_method = ''ray_cast''
      then (case rasterize c img draw_method rest of
              Inl e \<Rightarrow> Inl e
            | Inr others \<Rightarrow> Inr (contour_to_grid_ray_cast c merged img @ others))
      else Inl NotImplementedError)"

definition convert_contour_to_mask ::
  "collaborators \<Rightarrow> roi_contour_sequence \<Rightarrow> ImageFile option \<Rightarrow> string \<Rightarrow> string
     \<Rightarrow> error + volume option" where
  "convert_contour_to_mask c roi image_opt draw_method disconnected_segments =
     (case image_opt of
        None \<Rightarrow> Inr None
      | Some img \<Rightarrow>
     (case collect_contours roi of
        Inl e \<Rightarrow> Inl e
      | Inr None \<Rightarrow> Inr None
      | Inr (Some contour_objects) \<Rightarrow>
     (case np_zeros (image_dimension img) of
        Inl e \<Rightarrow> Inl e
      | Inr roi_mask \<Rightarrow>
     (case merge_contours c (map (contour_to_voxel_coordinates img) contour_objects) of
        Inl e \<Rightarrow> Inl e
      | Inr merged \<Rightarrow>
     (case rasterize c img draw_method merged of
        Inl e \<Rightarrow> Inl e
      | Inr slices \<Rightarrow>
          if length slices = 0 then Inr None
          else
     (case select_slices (get_slice_position c img) (fst (image_dimension img))
             (fst (image_spacing img)) (map snd slices) (map fst slices) of
        Inl e \<Rightarrow> Inl e
      | Inr None \<Rightarrow> Inr None
      | Inr (Some (mask_list, slice_list)) \<Rightarrow>
     (case set_slices (nat (fst (snd (image_dimension img))), nat (snd (snd (image_dimension img))))
             roi_mask (zip slice_list mask_list) of
        Inl e \<Rightarrow> Inl e
      | Inr filled \<Rightarrow>
          if disconnected_segments = ''keep_largest''
          then (case keep_largest_region filled of
                  Inl e \<Rightarrow> Inl e
                | Inr largest \<Rightarrow> Inr (Some largest))
          else Inr (Some filled))))))))"

subsection \<open>\<^verbatim>\<open>check_mask\<close> and \<^verbatim>\<open>to_object\<close>\<close>

record BaseMask =
  mask_roi_name :: "string option"
  mask_sample_name :: "string option"
  mask_image_modality :: "string option"
  mask_image_data :: volume
  mask_image_spacing :: vec3
  mask_image_origin :: vec3
  mask_image_orientation :: mat3
  mask_image_dimensions :: "int \<times> int \<times> int"

definition check_mask :: "MaskDicomFileRTSTRUCT \<Rightarrow> bool" where
  "check_mask self =
     (case structure_set_roi_sequence self of
        None \<Rightarrow> False
      | Some items \<Rightarrow>
          if length items = 0 then False
          else if list_ex (\<lambda>item. fst item = None) items then False
          else True)"

definition provided_roi_names :: "MaskDicomFileRTSTRUCT \<Rightarrow> string list option" where
  "provided_roi_names self =
     (case roi_name self of
        AllRois \<Rightarrow> None
      | RoiName n \<Rightarrow> Some [n]
      | RoiNames ns \<Rightarrow> Some ns
      | RoiMap m \<Rightarrow> Some (map fst m))"

text \<open>The lists \<^verbatim>\<open>roi_name_present\<close> and \<^verbatim>\<open>roi_number_present\<close>, item by item.\<close>

definition rois_present :: "MaskDicomFileRTSTRUCT \<Rightarrow> (string option \<times> int option) list" where
  "rois_present self =
     (case structure_set_roi_sequence self of
        None \<Rightarrow> []
      | Some items \<Rightarrow>
          (case provided_roi_names self of
             None \<Rightarrow> items
           | Some names \<Rightarrow> filter (\<lambda>item. fst item \<in> Some ` set names) items))"

definition current_roi_name :: "MaskDicomFileRTSTRUCT \<Rightarrow> int option \<Rightarrow> error + string option" where
  "current_roi_name self current_roi_number =
     (case filter (\<lambda>item. snd item = current_roi_number) (rois_present self) of
        [] \<Rightarrow> Inl IndexError
      | item # _ \<Rightarrow>
          (case roi_name self of
             RoiMap m \<Rightarrow> Inr (case fst item of None \<Rightarrow> None | Some n \<Rightarrow> map_of m n)
           | _ \<Rightarrow> Inr (fst item)))"

text \<open>
  The body of the loop over the ROI contour sequences, for an ROI that is selected:
  \<open>None\<close> where the source continues with the next ROI. The mask object is completed by
  \<^verbatim>\<open>complete()\<close> and \<^verbatim>\<open>update_image_data()\<close> of the base class, which are not part of the
  sources at hand; the completion methods this class overrides do nothing, and the model
  takes the descriptor as the source assigned it.
\<close>

definition roi_to_mask ::
  "collaborators \<Rightarrow> MaskDicomFileRTSTRUCT \<Rightarrow> ImageFile \<Rightarrow> string \<Rightarrow> roi_contour_sequence
     \<Rightarrow> error + BaseMask option" where
  "roi_to_mask c self img disconnected_segments roi =
     (case convert_contour_using_image self roi (Some img) of
        Inl e \<Rightarrow> Inl e
      | Inr (use_reference_image, use_orientation, use_position) \<Rightarrow>
     (case (if \<not> use_reference_image
            then (case create_image_from_contour c roi img use_orientation use_position of
                    Inl e \<Rightarrow> Inl e
                  | Inr temporary_image \<Rightarrow>
                      convert_contour_to_mask c roi (Some temporary_image) ''ray_cast''
                        disconnected_segments)
            else convert_contour_to_mask c roi (Some img) ''ray_cast'' disconnected_segments) of
        Inl e \<Rightarrow> Inl e
      | Inr None \<Rightarrow> Inr None
      | Inr (Some image_data) \<Rightarrow>
          if \<not> np_any image_data then Inr None
          else (case current_roi_name self (referenced_roi_number roi) of
                  Inl e \<Rightarrow> Inl e
                | Inr name \<Rightarrow>
                    Inr (Some \<lparr>mask_roi_name = name,
                               mask_sample_name = sample_name self,
                               mask_image_modality = modality self,
                               mask_image_data = image_data,
                               mask_image_spacing = image_spacing img,
                               mask_image_origin = image_origin img,
                               mask_image_orientation = image_orientation img,
                               mask_image_dimensions = image_dimension img\<rparr>))))"

fun roi_loop ::
  "collaborators \<Rightarrow> MaskDicomFileRTSTRUCT \<Rightarrow> ImageFile \<Rightarrow> string \<Rightarrow> roi_contour_sequence list
     \<Rightarrow> error + BaseMask list" where
  "roi_loop c self img disconnected_segments [] = Inr []"
| "roi_loop c self img disconnected_segments (roi # rest) =
     (if referenced_roi_number roi \<notin> snd ` set (rois_present self)
      then roi_loop c self img disconnected_segments rest
      else (case roi_to_mask c self img disconnected_segments roi of
              Inl e \<Rightarrow> Inl e
            | Inr produced \<Rightarrow>
                (case roi_loop c self img disconnected_segments rest of
                   Inl e \<Rightarrow> Inl e
                 | Inr masks \<Rightarrow>
                     Inr ((case produced of None \<Rightarrow> [] | Some m \<Rightarrow> [m]) @ masks))))"

definition to_object ::
  "collaborators \<Rightarrow> MaskDicomFileRTSTRUCT \<Rightarrow> ImageFile option \<Rightarrow> string
     \<Rightarrow> error + BaseMask list option" where
  "to_object c self image_opt disconnected_segments =
     (case image_opt of
        None \<Rightarrow> Inl TypeError
      | Some img \<Rightarrow>
          if \<not> check_mask self then Inr None
          else if length (rois_present self) = 0 then Inr None
          else (case roi_loop c self img disconnected_segments (roi_contour_sequences self) of
                  Inl e \<Rightarrow> Inl e
                | Inr mask_list \<Rightarrow> if length mask_list = 0 then Inr None else Inr (Some mask_list)))"

subsection \<open>The synthetic grid, as the specification words it\<close>

text \<open>
  Section 4.3: the slice spacing is the smallest gap between two of the projected
  slice-axis values, the in-plane spacing is the template's; the origin is the smallest
  projected coordinate per axis, less one in-plane spacing on the two in-plane axes; the
  dimension is the ceiling of (max - origin) / spacing per axis, plus one on the two
  in-plane axes.
\<close>

definition gaps :: "real set \<Rightarrow> real set" where
  "gaps A = (\<lambda>(a, b). b - a) ` {(a, b). a \<in> A \<and> b \<in> A \<and> a < b}"

definition spec_synthetic_grid :: "vec3 \<Rightarrow> vec3 list \<Rightarrow> vec3 \<times> vec3 \<times> (int \<times> int \<times> int)" where
  "spec_synthetic_grid template_spacing projected =
     (let Z = fst ` set projected; Y = (fst \<circ> snd) ` set projected; X = (snd \<circ> snd) ` set projected;
          sz = Min (gaps Z); sy = fst (snd template_spacing); sx = snd (snd template_spacing);
          oz = Min Z; oy = Min Y - sy; ox = Min X - sx
      in ((sz, sy, sx), (oz, oy, ox),
          (\<lceil>(Max Z - oz) / sz\<rceil>, \<lceil>(Max Y - oy) / sy\<rceil> + 1, \<lceil>(Max X - ox) / sx\<rceil> + 1)))"

subsection \<open>The outcome of slice matching, as the specification words it\<close>

text \<open>
  Section 4.6: a slice is matched to the unique index whose rounded difference is zero and
  is dropped when there is none; then an index that is negative or not below the
  out-of-plane dimension is dropped. \<open>kept_slices\<close> lists the slices that remain, each
  index with its grid.
\<close>

definition matched_index :: "real \<Rightarrow> real list \<Rightarrow> real \<Rightarrow> int option" where
  "matched_index slice_position known_position image_spacing_z =
     (case argwhere_zero (position_difference slice_position known_position image_spacing_z) of
        [i] \<Rightarrow> Some (int i)
      | _ \<Rightarrow> None)"

definition kept_slices :: "real list \<Rightarrow> int \<Rightarrow> real \<Rightarrow> 'm list \<Rightarrow> real list \<Rightarrow> (int \<times> 'm) list" where
  "kept_slices known_position dim_z image_spacing_z mask_list slice_list =
     filter (\<lambda>(i, m). 0 \<le> i \<and> i < dim_z)
       (List.map_filter
          (\<lambda>(p, m). map_option (\<lambda>i. (i, m)) (matched_index p known_position image_spacing_z))
          (zip slice_list mask_list))"

subsection \<open>Connected regions, as the specification words them\<close>

text \<open>
  Two voxels of \<open>S\<close> are connected when a chain of neighbours within \<open>S\<close> leads from one
  to the other; \<open>reachable\<close> is the connected component of a voxel. \<open>region18\<close> is the
  component of a true voxel of a volume for the neighbourhood that \<^verbatim>\<open>connectivity=2\<close>
  gives in three dimensions: the 18 voxels that share a face or an edge. \<open>step_set\<close> is
  one round of growing a region, on sets.
\<close>

definition adjacency :: "('a \<Rightarrow> 'a \<Rightarrow> bool) \<Rightarrow> 'a list \<Rightarrow> ('a \<times> 'a) set" where
  "adjacency adj S = {(a, b). a \<in> set S \<and> b \<in> set S \<and> adj a b}"

definition reachable :: "('a \<Rightarrow> 'a \<Rightarrow> bool) \<Rightarrow> 'a list \<Rightarrow> 'a \<Rightarrow> 'a set" where
  "reachable adj S v = {w. (v, w) \<in> (adjacency adj S)\<^sup>*}"

definition step_set :: "('a \<Rightarrow> 'a \<Rightarrow> bool) \<Rightarrow> 'a list \<Rightarrow> 'a set \<Rightarrow> 'a set" where
  "step_set adj S A = (A \<inter> set S) \<union> {w \<in> set S. \<exists>u \<in> A. adj u w}"

definition region18 :: "volume \<Rightarrow> voxel \<Rightarrow> voxel set" where
  "region18 vol v = reachable (neighbours 2) (true_voxels vol) v"

subsection \<open>Left singular vectors, as linear algebra words them\<close>

text \<open>
  \<^verbatim>\<open>np.linalg.svd\<close> is a library routine: the conversion takes its matrix \<open>U\<close> from the
  collaborators. For a 3 x n matrix \<open>A\<close> of centred points, the columns of a matrix \<open>U\<close> are
  left singular vectors of \<open>A\<close>, in the order of the decomposition, when they are
  orthonormal and \<open>U\<^sup>T (A A\<^sup>T) U\<close> is diagonal with a non-negative, non-increasing
  diagonal. The matrix \<open>A A\<^sup>T\<close> is \<open>scatter\<close>.
\<close>

definition transpose3 :: "mat3 \<Rightarrow> mat3" where
  "transpose3 m = (case m of ((a, b, c), (d, e, f), (g, h, i)) \<Rightarrow> ((a, d, g), (b, e, h), (c, f, i)))"

definition dot3 :: "vec3 \<Rightarrow> vec3 \<Rightarrow> real" where
  "dot3 u v = (case u of (a, b, c) \<Rightarrow> case v of (d, e, f) \<Rightarrow> a * d + b * e + c * f)"

definition scatter :: "vec3 list \<Rightarrow> mat3" where
  "scatter points =
     (let s = (\<lambda>f g. sum_list (map (\<lambda>p. f p * g p) points))
      in ((s fst fst, s fst (fst \<circ> snd), s fst (snd \<circ> snd)),
          (s (fst \<circ> snd) fst, s (fst \<circ> snd) (fst \<circ> snd), s (fst \<circ> snd) (snd \<circ> snd)),
          (s (snd \<circ> snd) fst, s (snd \<circ> snd) (fst \<circ> snd), s (snd \<circ> snd) (snd \<circ> snd))))"

definition left_singular_basis :: "mat3 \<Rightarrow> vec3 list \<Rightarrow> bool" where
  "left_singular_basis U points =
     (case transpose3 U of (u0, u1, u2) \<Rightarrow>
        (let S = scatter points
         in dot3 u0 u0 = 1 \<and> dot3 u1 u1 = 1 \<and> dot3 u2 u2 = 1
            \<and> dot3 u0 u1 = 0 \<and> dot3 u0 u2 = 0 \<and> dot3 u1 u2 = 0
            \<and> dot3 u0 (mat_vec S u1) = 0 \<and> dot3 u0 (mat_vec S u2) = 0 \<and> dot3 u1 (mat_vec S u2) = 0
            \<and> dot3 u1 (mat_vec S u1) \<le> dot3 u0 (mat_vec S u0)
            \<and> dot3 u2 (mat_vec S u2) \<le> dot3 u1 (mat_vec S u1)
            \<and> 0 \<le> dot3 u2 (mat_vec S u2)))"

text \<open>The columns of a matrix, each multiplied by its own factor.\<close>

definition scale_columns :: "vec3 \<Rightarrow> mat3 \<Rightarrow> mat3" where
  "scale_columns s m = (case s of (s0, s1, s2) \<Rightarrow> case m of ((a, b, c), (d, e, f), (g, h, i)) \<Rightarrow>
     ((s0 * a, s1 * b, s2 * c), (s0 * d, s1 * e, s2 * f), (s0 * g, s1 * h, s2 * i)))"

subsection \<open>Example inputs\<close>

text \<open>
  A reference image stack of 10 x 10 x 10 voxels with unit spacing, zero origin and the
  identity orientation; a structure set of another series; a rectangle in the plane of
  slice position \<open>z\<close>, wider along x than along y.
\<close>

definition unit_image :: ImageFile where
  "unit_image =
     \<lparr>image_class = ImageDicomFileStack (Some [''1.2.3'', ''1.2.4'']),
      image_series_instance_uid = Some ''1.1'',
      image_origin = (0, 0, 0), image_spacing = (1, 1, 1), image_dimension = (10, 10, 10),
      image_orientation = ((1, 0, 0), (0, 1, 0), (0, 0, 1))\<rparr>"

definition planar_contour :: "real \<Rightarrow> string option list option \<Rightarrow> contour_sequence" where
  "planar_contour z refs =
     \<lparr>contour_geometric_type = Some ''CLOSED_PLANAR'',
      contour_data = Some [z, 1, 1, z, 1, 5, z, 3, 5, z, 3, 1], contour_offset = None,
      contour_image_sequence = refs\<rparr>"

definition roi_of :: "contour_sequence list \<Rightarrow> roi_contour_sequence" where
  "roi_of cs = \<lparr>referenced_roi_number = Some 1, contour_sequences = cs\<rparr>"

definition plain_structure_set :: "roi_contour_sequence list \<Rightarrow> MaskDicomFileRTSTRUCT" where
  "plain_structure_set rois =
     \<lparr>series_instance_uid = Some ''9.9'', sample_name = Some ''patient'',
      modality = Some ''rtstruct'', roi_name = AllRois,
      structure_set_roi_sequence = Some [(Some ''GTV'', Some 1)],
      roi_contour_sequences = rois, referenced_frame_of_reference = None\<rparr>"

text \<open>
  Sample collaborators, to run the conversion on an example. The slice of a contour is
  its rounded first voxel coordinate; merging puts the polygons of a slice together; the
  rasterizer marks the voxels at the vertices of the polygons; the known slice positions
  are the multiples of the slice spacing; the decomposition returns the left singular
  vectors of a cloud that spreads most along x, less along y and not along the slice axis.
\<close>

definition vertex_grid :: "nat \<Rightarrow> nat \<Rightarrow> vec3 list \<Rightarrow> grid" where
  "vertex_grid dy dx points =
     map (\<lambda>y. map (\<lambda>x. list_ex (\<lambda>p. round (fst (snd p)) = int y \<and> round (snd (snd p)) = int x) points)
                  [0..<dx])
         [0..<dy]"

definition sample_collaborators :: collaborators where
  "sample_collaborators =
     \<lparr>which_slice = (\<lambda>obj. np_unique_int (map (\<lambda>p. round (fst p)) (concat (contour obj)))),
      merge_contours_of = (\<lambda>parent others slice_id.
        \<lparr>contour = contour parent @ concat (map contour (case others of None \<Rightarrow> [] | Some os \<Rightarrow> os))\<rparr>),
      contour_to_grid_ray_cast = (\<lambda>obj img.
        case concat (contour obj) of
          [] \<Rightarrow> []
        | p # ps \<Rightarrow> [(np_round (fst p),
                     vertex_grid (nat (fst (snd (image_dimension img))))
                       (nat (snd (snd (image_dimension img)))) (p # ps))]),
      get_slice_position = (\<lambda>img.
        map (\<lambda>k. real k * fst (image_spacing img)) [0..<nat (fst (image_dimension img))]),
      svd_U = (\<lambda>points. ((0, 0, 1), (0, 1, 0), (1, 0, 0)))\<rparr>"

definition off_grid_roi :: roi_contour_sequence where
  "off_grid_roi = roi_of [planar_contour (1 / 2) None, planar_contour (3 / 2) None]"

definition off_grid_points :: "vec3 list" where
  "off_grid_points = [(1 / 2, 1, 1), (1 / 2, 1, 5), (1 / 2, 3, 5), (1 / 2, 3, 1),
                      (3 / 2, 1, 1), (3 / 2, 1, 5), (3 / 2, 3, 5), (3 / 2, 3, 1)]"

definition synthetic_image :: ImageFile where
  "synthetic_image = unit_image\<lparr>image_spacing := (1, 1, 1), image_origin := (1 / 2, 0, 0),
     image_dimension := (1, 4, 6), image_orientation := ((1, 0, 0), (0, 1, 0), (0, 0, 1))\<rparr>"

text \<open>The grid that the sample rasterizer returns for the rectangle on 4 x 6 voxels.\<close>

definition off_grid_plane :: grid where
  "off_grid_plane =
     [[False, False, False, False, False, False],
      [False, True, False, False, False, True],
      [False, False, False, False, False, False],
      [False, True, False, False, False, True]]"

definition rectangle_at :: "real \<Rightarrow> ContourClass" where
  "rectangle_at z = \<lparr>contour = [[(z, 1, 1), (z, 1, 5), (z, 3, 5), (z, 3, 1)]]\<rparr>"

text \<open>
  Two volumes: two voxels that touch at a corner only, and a row with a region of two
  voxels and a region of one.
\<close>

definition corner_volume :: volume where
  "corner_volume = [[[True, False], [False, False]], [[False, False], [False, True]]]"

definition line_volume :: volume where
  "line_volume = [[[True, True, False, True]]]"

text \<open>
  Two rectangles that lie 100 apart along the first axis, the points of the rectangle at
  \<open>z\<close>, and a rectangle that is longer along the second axis than along the third.
\<close>

definition tall_roi :: roi_contour_sequence where
  "tall_roi = roi_of [planar_contour 0 None, planar_contour 100 None]"

definition rectangle_points :: "real \<Rightarrow> vec3 list" where
  "rectangle_points z = [(z, 1, 1), (z, 1, 5), (z, 3, 5), (z, 3, 1)]"

definition upright_points :: "vec3 list" where
  "upright_points = [(0, 1, 1), (0, 1, 3), (0, 5, 3), (0, 5, 1)]"

section \<open>Properties\<close>

subsection \<open>Evaluating the examples\<close>

lemma inverse3_identity:
  "inverse3 ((1, 0, 0), (0, 1, 0), (0, 0, 1)) = ((1, 0, 0), (0, 1, 0), (0, 0, 1))"
  by (simp add: inverse3_def det3_def)

lemma to_voxel_coordinates_unit:
  "to_voxel_coordinates (0, 0, 0) ((1, 0, 0), (0, 1, 0), (0, 0, 1)) (1, 1, 1) (a, b, c) = (a, b, c)"
  by (simp add: to_voxel_coordinates_def inverse3_identity mat_vec_def)

lemma collect_one_contour:
  "collect_contours (roi_of [planar_contour z r]) =
     Inr (Some [\<lparr>contour = [[(z, 1, 1), (z, 1, 5), (z, 3, 5), (z, 3, 1)]]\<rparr>])"
  by (simp add: collect_contours_def roi_of_def planar_contour_def subtract_offset_def)

lemma collect_two_contours:
  "collect_contours (roi_of [planar_contour z r, planar_contour z' r']) =
     Inr (Some [\<lparr>contour = [[(z, 1, 1), (z, 1, 5), (z, 3, 5), (z, 3, 1)]]\<rparr>,
                \<lparr>contour = [[(z', 1, 1), (z', 1, 5), (z', 3, 5), (z', 3, 1)]]\<rparr>])"
  by (simp add: collect_contours_def roi_of_def planar_contour_def subtract_offset_def)

lemma contour_to_voxel_unit_image:
  "contour_to_voxel_coordinates unit_image \<lparr>contour = [[(z, 1, 1), (z, 1, 5), (z, 3, 5), (z, 3, 1)]]\<rparr>
     = \<lparr>contour = [[(z, 1, 1), (z, 1, 5), (z, 3, 5), (z, 3, 1)]]\<rparr>"
  by (simp add: contour_to_voxel_coordinates_def unit_image_def to_voxel_coordinates_unit)

lemma series_uid_mismatch:
  "\<not> series_uid_correct (plain_structure_set rois) unit_image"
  by (simp add: series_uid_correct_def reference_series_instance_uid_def unit_image_def
      plain_structure_set_def)

lemma no_sop_uid_referenced:
  "\<not> sop_uid_correct (plain_structure_set rois) (roi_of [planar_contour z None, planar_contour z' None])
       unit_image"
  by (simp add: sop_uid_correct_def reference_sop_instance_uid_def unit_image_def
      referenced_sop_uids_def roi_of_def planar_contour_def plain_structure_set_def
      List.map_filter_simps)

subsection \<open>Reference strategy\<close>

lemma length_np_unique: "length (np_unique xs) = card (set xs)"
  by (simp add: np_unique_def length_remdups_card_conv)

text \<open>
  Claim C2. When the contours of an ROI pass the orientation and position checks of every
  sub-contour and lie on two or more unique slice positions of the reference image, and
  the smallest gap between consecutive unique positions is not close to 1 while neither
  the series UID nor the pooled SOP UIDs confirm the image, then
  \<^verbatim>\<open>_convert_contour_using_image\<close> rejects the reference image: it returns
  (False, True, False).
\<close>

theorem non_adjacent_unconfirmed_slices_rejected:
  assumes "collect_contours roi = Inr (Some objs)"
    and "subs = sub_contours_of (map (contour_to_voxel_coordinates img) objs)"
    and "check_planes subs True True = Inr (True, True)"
    and "2 \<le> card (set (slice_positions subs))"
    and "np_min (np_diff (np_unique (slice_positions subs))) = Inr gap"
    and "\<not> isclose gap 1"
    and "\<not> series_uid_correct self img"
    and "\<not> sop_uid_correct self roi img"
  shows "convert_contour_using_image self roi (Some img) = Inr (False, True, False)"
  using assms by (simp add: convert_contour_using_image_def Let_def length_np_unique)

text \<open>Contours on the slices 0 and 5 of the example image, with no UID that matches.\<close>

theorem non_adjacent_unconfirmed_slices_rejected_witness:
  "convert_contour_using_image (plain_structure_set [])
     (roi_of [planar_contour 0 None, planar_contour 5 None]) (Some unit_image)
   = Inr (False, True, False)"
  apply (rule non_adjacent_unconfirmed_slices_rejected
      [where gap = 5, OF collect_two_contours refl _ _ _ _ series_uid_mismatch no_sop_uid_referenced])
     apply (simp add: sub_contours_of_def contour_to_voxel_unit_image allclose_def isclose_def
      np_round_def)
    apply (simp add: sub_contours_of_def contour_to_voxel_unit_image slice_positions_def)
   apply (simp add: sub_contours_of_def contour_to_voxel_unit_image slice_positions_def
      np_unique_def np_min_def)
  apply (simp add: isclose_def)
  done

text \<open>
  Claim C3, as the code has it. The single-slice shortcut comes after the orientation and
  position checks: when every sub-contour passes them and all contours lie on one unique
  slice position, the reference image is accepted whatever the UID checks say.
\<close>

theorem single_slice_accepted_after_checks:
  assumes "collect_contours roi = Inr (Some objs)"
    and "subs = sub_contours_of (map (contour_to_voxel_coordinates img) objs)"
    and "check_planes subs True True = Inr (True, True)"
    and "card (set (slice_positions subs)) = 1"
  shows "convert_contour_using_image self roi (Some img) = Inr (True, True, True)"
  using assms by (simp add: convert_contour_using_image_def Let_def length_np_unique)

theorem single_slice_accepted_after_checks_witness:
  "\<not> series_uid_correct (plain_structure_set []) unit_image
   \<and> convert_contour_using_image (plain_structure_set []) (roi_of [planar_contour 2 None])
       (Some unit_image) = Inr (True, True, True)"
proof -
  have "convert_contour_using_image (plain_structure_set []) (roi_of [planar_contour 2 None])
       (Some unit_image) = Inr (True, True, True)"
    apply (rule single_slice_accepted_after_checks [OF collect_one_contour refl])
     apply (simp add: sub_contours_of_def contour_to_voxel_unit_image allclose_def isclose_def
        np_round_def)
    apply (simp add: sub_contours_of_def contour_to_voxel_unit_image slice_positions_def)
    done
  then show ?thesis
    using series_uid_mismatch by simp
qed

text \<open>
  The claim as stated fails: one contour on the single slice position 1/2 of the example
  image, which is no integer, is rejected with (False, True, False).
\<close>

theorem single_slice_off_grid_rejected:
  "card (set (slice_positions (sub_contours_of (map (contour_to_voxel_coordinates unit_image)
       [\<lparr>contour = [[(1 / 2, 1, 1), (1 / 2, 1, 5), (1 / 2, 3, 5), (1 / 2, 3, 1)]]\<rparr>])))) = 1
   \<and> convert_contour_using_image (plain_structure_set []) (roi_of [planar_contour (1 / 2) None])
       (Some unit_image) = Inr (False, True, False)"
  apply (simp add: convert_contour_using_image_def collect_one_contour)
  apply (simp add: sub_contours_of_def contour_to_voxel_unit_image slice_positions_def
      allclose_def isclose_def np_round_def)
  done

text \<open>
  Claim C4, as the code has it. For a reference image that exposes SOP instance UIDs,
  \<^verbatim>\<open>sop_uid_correct\<close> is true exactly when the pooled list of referenced SOP instance UIDs
  (those of the contour image sequences, then those of the referenced frame of reference
  sequence, the missing ones left out, repetitions counted) has more than one entry and
  each of its entries is a SOP instance UID of the reference image. A list with one entry
  or none leaves it False.
\<close>

theorem sop_uid_confirmed_with_several_references:
  assumes "reference_sop_instance_uid img = Some ref"
  shows "sop_uid_correct self roi img \<longleftrightarrow>
           1 < length (referenced_sop_uids self roi) \<and> set (referenced_sop_uids self roi) \<subseteq> set ref"
  using assms by (simp add: sop_uid_correct_def)

text \<open>
  Two contours, on the slices 0 and 5, that reference the two SOP instance UIDs of the
  example image.
\<close>

theorem sop_uid_confirmed_with_several_references_witness:
  "reference_sop_instance_uid unit_image = Some [''1.2.3'', ''1.2.4'']
   \<and> sop_uid_correct (plain_structure_set [])
        (roi_of [planar_contour 0 (Some [Some ''1.2.3'']), planar_contour 5 (Some [Some ''1.2.4''])])
        unit_image"
proof -
  have ref: "reference_sop_instance_uid unit_image = Some [''1.2.3'', ''1.2.4'']"
    by (simp add: reference_sop_instance_uid_def unit_image_def)
  have pooled: "referenced_sop_uids (plain_structure_set [])
      (roi_of [planar_contour 0 (Some [Some ''1.2.3'']), planar_contour 5 (Some [Some ''1.2.4''])])
      = [''1.2.3'', ''1.2.4'']"
    by (simp add: referenced_sop_uids_def roi_of_def planar_contour_def plain_structure_set_def
        List.map_filter_simps)
  show ?thesis
    using sop_uid_confirmed_with_several_references[OF ref, of "plain_structure_set []"
        "roi_of [planar_contour 0 (Some [Some ''1.2.3'']), planar_contour 5 (Some [Some ''1.2.4''])]"]
    by (simp add: ref pooled)
qed

text \<open>
  The claim as stated fails: one referenced SOP instance UID, which is one of the UIDs of
  the reference image. The pooled list is not empty and within the image's UIDs, and yet
  \<^verbatim>\<open>sop_uid_correct\<close> stays False, since the source compares the sets only when the list
  has more than one entry. The entries are counted, not the distinct UIDs: the same UID
  referenced twice is confirmed.
\<close>

theorem single_referenced_sop_uid_not_confirmed:
  "referenced_sop_uids (plain_structure_set []) (roi_of [planar_contour 0 (Some [Some ''1.2.3''])])
     = [''1.2.3'']
   \<and> reference_sop_instance_uid unit_image = Some [''1.2.3'', ''1.2.4'']
   \<and> sop_uid_correct (plain_structure_set []) (roi_of [planar_contour 0 (Some [Some ''1.2.3''])])
        unit_image = False
   \<and> sop_uid_correct (plain_structure_set [])
        (roi_of [planar_contour 0 (Some [Some ''1.2.3'', Some ''1.2.3''])]) unit_image = True"
  by (simp add: sop_uid_correct_def reference_sop_instance_uid_def unit_image_def
      referenced_sop_uids_def roi_of_def planar_contour_def plain_structure_set_def
      List.map_filter_simps)

text \<open>
  Claim C10, as the code has it. Given a reference image, an ROI contour sequence from
  which no contour is collected makes \<^verbatim>\<open>_convert_contour_using_image\<close> return
  (True, True, True); no geometric check is made.
\<close>

theorem no_contours_accepted_with_image:
  assumes "collect_contours roi = Inr None"
  shows "convert_contour_using_image self roi (Some img) = Inr (True, True, True)"
  using assms by (simp add: convert_contour_using_image_def)

theorem no_contours_accepted_with_image_witness:
  "convert_contour_using_image (plain_structure_set [])
     (roi_of [(planar_contour 0 None)\<lparr>contour_geometric_type := Some ''POINT''\<rparr>])
     (Some unit_image) = Inr (True, True, True)"
  by (rule no_contours_accepted_with_image)
     (simp add: collect_contours_def roi_of_def planar_contour_def)

text \<open>
  The claim as stated fails: without a reference image the function returns
  (False, False, False) before it looks at the contours.
\<close>

theorem no_contours_without_image_rejected:
  "collect_contours (roi_of []) = Inr None
   \<and> convert_contour_using_image (plain_structure_set []) (roi_of []) None
       = Inr (False, False, False)"
  by (simp add: convert_contour_using_image_def collect_contours_def roi_of_def)

subsection \<open>\<^verbatim>\<open>to_object\<close>\<close>

text \<open>
  Claim C9. \<^verbatim>\<open>to_object\<close> with \<^verbatim>\<open>image = None\<close> raises TypeError, for every structure set,
  every collaborator and every policy.
\<close>

theorem to_object_without_image_raises:
  "to_object c self None disconnected_segments = Inl TypeError"
  by (simp add: to_object_def)

subsection \<open>Slice matching\<close>

lemma match_slice_position_cases:
  "match_slice_position p known sz =
     (case argwhere_zero (position_difference p known sz) of
        [] \<Rightarrow> Inr None | [i] \<Rightarrow> Inr (Some (int i)) | _ \<Rightarrow> Inl TypeError)"
  by (simp add: match_slice_position_def Let_def split: list.splits)

lemma match_unambiguous:
  assumes "length (argwhere_zero (position_difference p known sz)) \<le> 1"
  shows "match_slice_position p known sz = Inr (matched_index p known sz)"
  using assms by (auto simp: match_slice_position_cases matched_index_def split: list.splits)

lemma match_all_unambiguous:
  assumes "\<forall>p \<in> set ps. length (argwhere_zero (position_difference p known sz)) \<le> 1"
  shows "match_all ps known sz = Inr (map (\<lambda>p. matched_index p known sz) ps)"
  using assms by (induction ps) (simp_all add: match_unambiguous)

lemma nth_filter_aligned:
  assumes "length ss = length ms"
  shows "map (\<lambda>ii. ms ! ii) (filter (\<lambda>ii. P (ss ! ii)) [0..<length ss])
         = map snd (filter (\<lambda>sm. P (fst sm)) (zip ss ms))"
  using assms
proof (induction ss ms rule: list_induct2)
  case Nil
  then show ?case by simp
next
  case (Cons s ss m ms)
  have "[0..<length (s # ss)] = 0 # map Suc [0..<length ss]"
    by (simp add: upt_conv_Cons map_Suc_upt del: upt_Suc)
  then show ?case
    using Cons.IH by (simp add: filter_map o_def del: upt_Suc)
qed

lemma filter_fst_aligned:
  assumes "length ss = length ms"
  shows "filter P ss = map fst (filter (\<lambda>sm. P (fst sm)) (zip ss ms))"
  using assms by (induction ss ms rule: list_induct2) auto


lemma matched_pairs_snd:
  "map snd (filter (\<lambda>sm. fst sm \<noteq> None) zs)
     = map snd (List.map_filter (\<lambda>(s, m). map_option (\<lambda>i. (i, m)) s) zs)"
  by (induction zs) (auto simp: List.map_filter_simps split: option.splits)

lemma matched_pairs_fst:
  assumes "length ss = length ms"
  shows "List.map_filter (\<lambda>s. s) ss
     = map fst (List.map_filter (\<lambda>(s, m). map_option (\<lambda>i. (i, m)) s) (zip ss ms))"
  using assms
  by (induction ss ms rule: list_induct2) (auto simp: List.map_filter_simps split: option.splits)

lemma retain_matched_aligned:
  assumes "length ss = length ms"
  shows "retain_matched ms ss =
     (map snd (List.map_filter (\<lambda>(s, m). map_option (\<lambda>i. (i, m)) s) (zip ss ms)),
      map fst (List.map_filter (\<lambda>(s, m). map_option (\<lambda>i. (i, m)) s) (zip ss ms)))"
  unfolding retain_matched_def nth_filter_aligned[OF assms, of "\<lambda>s. s \<noteq> None"] matched_pairs_snd
  using matched_pairs_fst[OF assms] by simp

lemma retain_non_negative_aligned:
  assumes "length ss = length ms"
  shows "retain_non_negative ms ss =
     (map snd (filter (\<lambda>sm. 0 \<le> fst sm) (zip ss ms)), map fst (filter (\<lambda>sm. 0 \<le> fst sm) (zip ss ms)))"
  using assms nth_filter_aligned[OF assms, of "\<lambda>s. 0 \<le> s"] filter_fst_aligned[OF assms, of "\<lambda>s. 0 \<le> s"]
  by (simp add: retain_non_negative_def)


lemma retain_in_range_aligned:
  assumes "length ss = length ms" and "\<forall>s \<in> set ss. 0 \<le> s"
  shows "retain_in_range d ms ss =
     (map snd (filter (\<lambda>sm. fst sm < d) (zip ss ms)), map fst (filter (\<lambda>sm. fst sm < d) (zip ss ms)))"
proof -
  have "\<And>ii. ii \<in> set [0..<length ss] \<Longrightarrow> (\<bar>ss ! ii\<bar> < d) = (ss ! ii < d)"
    using assms(2) by (simp add: abs_of_nonneg)
  then have "filter (\<lambda>ii. \<bar>ss ! ii\<bar> < d) [0..<length ss] = filter (\<lambda>ii. ss ! ii < d) [0..<length ss]"
    by (rule filter_cong[OF refl])
  then show ?thesis
    unfolding retain_in_range_def assms(1)[symmetric]
    using nth_filter_aligned[OF assms(1), of "\<lambda>s. s < d"] filter_fst_aligned[OF assms(1), of "\<lambda>s. s < d"]
    by simp
qed


lemma matched_pairs_map:
  "List.map_filter (\<lambda>(s, m). map_option (\<lambda>i. (i, m)) s) (zip (map f ps) ms)
   = List.map_filter (\<lambda>(p, m). map_option (\<lambda>i. (i, m)) (f p)) (zip ps ms)"
proof (induction ps arbitrary: ms)
  case Nil
  then show ?case by simp
next
  case (Cons p ps)
  then show ?case by (cases ms) (auto simp: List.map_filter_simps split: option.splits)
qed

lemma zip_fst_snd: "zip (map fst zs) (map snd zs) = zs"
  by (induction zs) simp_all

lemma select_slices_steps:
  assumes "match_all slice_list known sz = Inr matched"
    and "retain_matched mask_list matched = (map snd pairs, map fst pairs)"
    and "retain_non_negative (map snd pairs) (map fst pairs) = (map snd nn, map fst nn)"
    and "retain_in_range dim_z (map snd nn) (map fst nn) = (map snd ir, map fst ir)"
    and "pairs = [] \<Longrightarrow> ir = []" and "nn = [] \<Longrightarrow> ir = []"
  shows "select_slices known dim_z sz mask_list slice_list =
     Inr (if ir = [] then None else Some (map snd ir, map fst ir))"
  using assms by (auto simp: select_slices_def)


lemma select_slices_unambiguous:
  assumes "\<forall>p \<in> set slice_list. length (argwhere_zero (position_difference p known sz)) \<le> 1"
    and "length mask_list = length slice_list"
  shows "select_slices known dim_z sz mask_list slice_list =
     Inr (if kept_slices known dim_z sz mask_list slice_list = [] then None
          else Some (map snd (kept_slices known dim_z sz mask_list slice_list),
                     map fst (kept_slices known dim_z sz mask_list slice_list)))"
proof -
  define matched where "matched = map (\<lambda>p. matched_index p known sz) slice_list"
  define pairs where "pairs = List.map_filter (\<lambda>(p, m). map_option (\<lambda>i. (i, m)) (matched_index p known sz))
                  (zip slice_list mask_list)"
  define nn where "nn = filter (\<lambda>sm. 0 \<le> fst sm) pairs"
  define ir where "ir = filter (\<lambda>sm. fst sm < dim_z) nn"
  have m: "match_all slice_list known sz = Inr matched"
    unfolding matched_def by (rule match_all_unambiguous[OF assms(1)])
  have len: "length matched = length mask_list"
    using assms(2) by (simp add: matched_def)
  have r1: "retain_matched mask_list matched = (map snd pairs, map fst pairs)"
    using retain_matched_aligned[OF len] by (simp only: pairs_def matched_def matched_pairs_map)
  have r2: "retain_non_negative (map snd pairs) (map fst pairs) = (map snd nn, map fst nn)"
    unfolding nn_def using retain_non_negative_aligned[of "map fst pairs" "map snd pairs"]
    by (simp only: zip_fst_snd length_map)
  have nonneg: "\<forall>s \<in> set (map fst nn). 0 \<le> s"
    by (auto simp: nn_def)
  have r3: "retain_in_range dim_z (map snd nn) (map fst nn) = (map snd ir, map fst ir)"
    unfolding ir_def using retain_in_range_aligned[of "map fst nn" "map snd nn" dim_z, OF _ nonneg]
    by (simp only: zip_fst_snd length_map)
  have e1: "pairs = [] \<Longrightarrow> ir = []" by (simp add: ir_def nn_def)
  have e2: "nn = [] \<Longrightarrow> ir = []" by (simp add: ir_def)
  have kept: "kept_slices known dim_z sz mask_list slice_list = ir"
    unfolding kept_slices_def ir_def nn_def pairs_def
    by (simp add: case_prod_unfold conj_commute)
  show ?thesis
    unfolding kept by (rule select_slices_steps[OF m r1 r2 r3 e1 e2])
qed

text \<open>
  Claim C7, as the code has it. When no rasterized slice position has more than one known
  slice position at rounded difference zero, matching and filtering raise nothing: every
  slice gets the unique matching index or none, and what is returned are exactly the
  matched slices whose index is at least 0 and below the out-of-plane dimension, each
  with its own grid (\<open>None\<close> when no slice is left).
\<close>

theorem slice_matching_without_error:
  assumes "\<forall>p \<in> set slice_list.
             length (argwhere_zero (position_difference p known_position image_spacing_z)) \<le> 1"
    and "length mask_list = length slice_list"
  shows "(\<forall>p \<in> set slice_list.
            match_slice_position p known_position image_spacing_z
              = Inr (matched_index p known_position image_spacing_z))
         \<and> select_slices known_position dim_z image_spacing_z mask_list slice_list =
             Inr (if kept_slices known_position dim_z image_spacing_z mask_list slice_list = []
                  then None
                  else Some (map snd (kept_slices known_position dim_z image_spacing_z mask_list slice_list),
                             map fst (kept_slices known_position dim_z image_spacing_z mask_list slice_list)))
         \<and> (\<forall>im \<in> set (kept_slices known_position dim_z image_spacing_z mask_list slice_list).
               0 \<le> fst im \<and> fst im < dim_z)"
proof (intro conjI)
  show "\<forall>p \<in> set slice_list.
          match_slice_position p known_position image_spacing_z
            = Inr (matched_index p known_position image_spacing_z)"
    using assms(1) by (simp add: match_unambiguous)
  show "select_slices known_position dim_z image_spacing_z mask_list slice_list =
          Inr (if kept_slices known_position dim_z image_spacing_z mask_list slice_list = []
               then None
               else Some (map snd (kept_slices known_position dim_z image_spacing_z mask_list slice_list),
                          map fst (kept_slices known_position dim_z image_spacing_z mask_list slice_list)))"
    using assms by (rule select_slices_unambiguous)
  show "\<forall>im \<in> set (kept_slices known_position dim_z image_spacing_z mask_list slice_list).
          0 \<le> fst im \<and> fst im < dim_z"
    by (auto simp: kept_slices_def)
qed

lemma np_around3_zero: "np_around3 0 = 0"
  by (simp add: np_around3_def np_round_def)

lemma np_around3_positive_integer: "np_around3 (numeral k) \<noteq> 0"
  by (simp add: np_around3_def np_round_def)

text \<open>
  Known slice positions 0, 1, 2 of a grid cropped to two slices: the slice at 5 is not
  matched, the slice at 2 lies beyond the grid, the slices at 0 and 1 are kept.
\<close>

theorem slice_matching_without_error_witness:
  "select_slices [0, 1, 2] 2 1 [''a'', ''b'', ''c'', ''d''] [0, 5, 2, 1]
     = Inr (Some ([''a'', ''d''], [0, 1]))"
proof -
  have hits: "argwhere_zero (position_difference 0 [0, 1, 2] 1) = [0]"
    "argwhere_zero (position_difference 5 [0, 1, 2] 1) = []"
    "argwhere_zero (position_difference 2 [0, 1, 2] 1) = [2]"
    "argwhere_zero (position_difference 1 [0, 1, 2] 1) = [1]"
    by (simp_all add: argwhere_zero_def position_difference_def np_around3_zero
        np_around3_positive_integer upt_rec[of 0] upt_rec[of 1] upt_rec[of 2] upt_rec[of 3]
        np_around3_positive_integer[of Num.One, simplified])
  have unambiguous: "\<forall>p \<in> set [0, 5, 2, 1 :: real].
      length (argwhere_zero (position_difference p [0, 1, 2] 1)) \<le> 1"
    by (simp add: hits)
  have kept: "kept_slices [0, 1, 2] 2 1 [''a'', ''b'', ''c'', ''d''] [0, 5, 2, 1]
      = [(0, ''a''), (1, ''d'')]"
    by (simp add: kept_slices_def matched_index_def hits List.map_filter_simps)
  show ?thesis
    using slice_matching_without_error[OF unambiguous, of "[''a'', ''b'', ''c'', ''d'']" 2]
    by (simp add: kept)
qed

text \<open>
  The claim as stated fails: two known slice positions within half a thousandth of the
  slice both have rounded difference zero, and the conversion of the two matching
  indices to one integer raises TypeError, which the selection of the slices passes on.
\<close>

theorem ambiguous_slice_match_raises:
  "match_slice_position 0 [0, 1 / 2500] 1 = Inl TypeError
   \<and> select_slices [0, 1 / 2500] 2 1 [''a''] [0] = Inl TypeError"
  by (simp add: select_slices_def match_slice_position_def argwhere_zero_def
      position_difference_def np_around3_def np_round_def upt_rec[of 0] upt_rec[of 1]
      upt_rec[of 2])

subsection \<open>Synthetic grid\<close>

lemma np_min_Min: "xs \<noteq> [] \<Longrightarrow> np_min xs = Inr (Min (set xs))"
  by (cases xs) (simp_all add: np_min_def Min.set_eq_fold[symmetric])

lemma np_max_Max: "xs \<noteq> [] \<Longrightarrow> np_max xs = Inr (Max (set xs))"
  by (cases xs) (simp_all add: np_max_def Max.set_eq_fold[symmetric])

lemma set_np_unique: "set (np_unique xs) = set xs"
  by (simp add: np_unique_def)

lemma sorted_np_unique: "sorted (np_unique xs)" and distinct_np_unique: "distinct (np_unique xs)"
  by (simp_all add: np_unique_def)

lemma finite_gaps: "finite A \<Longrightarrow> finite (gaps A)"
proof -
  assume "finite A"
  then have "finite (A \<times> A)" by simp
  moreover have "{(a, b). a \<in> A \<and> b \<in> A \<and> a < b} \<subseteq> A \<times> A" by auto
  ultimately have "finite {(a, b). a \<in> A \<and> b \<in> A \<and> a < b}" by (rule rev_finite_subset)
  then show ?thesis by (simp add: gaps_def)
qed

lemma np_diff_in_gaps:
  "sorted us \<Longrightarrow> distinct us \<Longrightarrow> d \<in> set (np_diff us) \<Longrightarrow> d \<in> gaps (set us)"
proof (induction us rule: np_diff.induct)
  case (1 x y rest)
  show ?case
  proof (cases "d = y - x")
    case True
    have "x < y" using 1(2,3) by auto
    then have "(x, y) \<in> {(a, b). a \<in> set (x # y # rest) \<and> b \<in> set (x # y # rest) \<and> a < b}" by simp
    then show ?thesis unfolding gaps_def True by (rule image_eqI[rotated]) simp
  next
    case False
    then have "d \<in> set (np_diff (y # rest))" using 1(4) by simp
    then have "d \<in> gaps (set (y # rest))" using 1 by simp
    then show ?thesis unfolding gaps_def by auto
  qed
qed simp_all

lemma gap_above_np_diff:
  "sorted us \<Longrightarrow> a \<in> set us \<Longrightarrow> b \<in> set us \<Longrightarrow> a < b \<Longrightarrow> \<exists>d \<in> set (np_diff us). d \<le> b - a"
proof (induction us)
  case Nil
  then show ?case by simp
next
  case (Cons x rest)
  show ?case
  proof (cases "a = x")
    case True
    then have "b \<in> set rest" using Cons.prems by auto
    then obtain y r where rest: "rest = y # r" by (cases rest) auto
    have "y \<le> b" using Cons.prems(1) \<open>b \<in> set rest\<close> by (auto simp: rest)
    then show ?thesis using True by (auto simp: rest)
  next
    case False
    then have a: "a \<in> set rest" using Cons.prems by simp
    then have "x \<le> a" using Cons.prems(1) by auto
    then have b: "b \<in> set rest" using Cons.prems by auto
    have "sorted rest" using Cons.prems(1) by simp
    from Cons.IH[OF this a b Cons.prems(4)] obtain d where "d \<in> set (np_diff rest)" "d \<le> b - a" by blast
    moreover have "set (np_diff rest) \<subseteq> set (np_diff (x # rest))" by (cases rest) auto
    ultimately show ?thesis by blast
  qed
qed

lemma np_diff_nonempty: "2 \<le> length us \<Longrightarrow> np_diff us \<noteq> []"
  by (induction us rule: np_diff.induct) simp_all

lemma np_min_diff_gaps:
  assumes "sorted us" "distinct us" "2 \<le> length us"
  shows "np_min (np_diff us) = Inr (Min (gaps (set us)))"
proof -
  let ?D = "set (np_diff us)" and ?G = "gaps (set us)"
  have ne: "np_diff us \<noteq> []" using assms(3) by (rule np_diff_nonempty)
  have sub: "?D \<subseteq> ?G" using np_diff_in_gaps[OF assms(1,2)] by blast
  have fin: "finite ?G" by (simp add: finite_gaps)
  have Gne: "?G \<noteq> {}" using sub ne by auto
  have le1: "Min ?G \<le> Min ?D" using sub ne fin by (intro Min_antimono) auto
  have "Min ?G \<in> ?G" using fin Gne by (rule Min_in)
  then obtain a b where ab: "a \<in> set us" "b \<in> set us" "a < b" "Min ?G = b - a"
    by (auto simp: gaps_def)
  from gap_above_np_diff[OF assms(1) ab(1,2,3)] obtain d where d: "d \<in> ?D" "d \<le> b - a" by blast
  have "Min ?D \<le> d" using d(1) by simp
  then have "Min ?D \<le> Min ?G" using d(2) ab(4) by simp
  then have "Min ?D = Min ?G" using le1 by simp
  then show ?thesis using np_min_Min[OF ne] by simp
qed

lemma np_min_diff_unique:
  assumes "2 \<le> card (set xs)"
  shows "np_min (np_diff (np_unique xs)) = Inr (Min (gaps (set xs)))"
  using np_min_diff_gaps[OF sorted_np_unique distinct_np_unique, of xs] assms
  by (simp add: set_np_unique np_unique_def length_remdups_card_conv)


lemma synthetic_grid_spec:
  assumes "2 \<le> card (fst ` set P)" and "fst (snd ts) \<noteq> 0" and "snd (snd ts) \<noteq> 0"
  shows "synthetic_grid ts P = Inr (spec_synthetic_grid ts P)"
proof -
  have ne: "P \<noteq> []" using assms(1) by auto
  have gap: "np_min (np_diff (np_unique (map fst P))) = Inr (Min (gaps (fst ` set P)))"
    using np_min_diff_unique[of "map fst P"] assms(1) by simp
  have u: "\<And>f. np_unique (map f P) \<noteq> []"
    using ne by (metis set_np_unique set_empty map_is_Nil_conv)
  have mins: "\<And>f. np_min (np_unique (map f P)) = Inr (Min (f ` set P))"
    "\<And>f. np_max (np_unique (map f P)) = Inr (Max (f ` set P))"
    using np_min_Min[OF u] np_max_Max[OF u] by (simp_all add: set_np_unique)
  show ?thesis
    unfolding synthetic_grid_def Let_def gap mins
    using assms(2,3) by (simp add: spec_synthetic_grid_def Let_def np_ceil_int_def)
qed

lemma create_image_full_synthetic:
  assumes "collect_contours roi = Inr (Some objs)"
    and "orientation_points objs = Inr pts"
    and "R = mask_orientation_of (svd_U c (mean_centre pts))"
    and "P = project_contours R objs"
    and "2 \<le> card (fst ` set P)"
    and "fst (snd (image_spacing img)) \<noteq> 0" and "snd (snd (image_spacing img)) \<noteq> 0"
  shows "create_image_from_contour c roi img use_orientation False =
           (case spec_synthetic_grid (image_spacing img) P of (mask_spacing, mask_origin, mask_dimension) \<Rightarrow>
              Inr (img\<lparr>image_spacing := mask_spacing, image_origin := mask_origin,
                       image_dimension := mask_dimension, image_orientation := R\<rparr>))"
  using assms(1,2) synthetic_grid_spec[OF assms(5,6,7)]
  by (simp add: create_image_from_contour_def assms(3,4) split: prod.splits)


lemma orientation_points_collected:
  assumes "collect_contours roi = Inr (Some objs)"
  shows "\<exists>pts. orientation_points objs = Inr pts"
proof -
  have "\<And>objs. collect_contour_objects cs = Inr objs \<Longrightarrow> \<forall>obj \<in> set objs. contour obj \<noteq> []" for cs
    by (induction cs) (auto split: if_splits option.splits sum.splits)
  then have "\<forall>obj \<in> set objs. contour obj \<noteq> []"
    using assms by (auto simp: collect_contours_def split: sum.splits if_splits)
  moreover have "objs \<noteq> []"
    using assms by (auto simp: collect_contours_def split: sum.splits if_splits)
  ultimately show ?thesis
    by (cases objs) (auto simp: orientation_points_def)
qed

lemma sample_orientation:
  "mask_orientation_of (svd_U sample_collaborators pts) = ((1, 0, 0), (0, 1, 0), (0, 0, 1))"
  by (simp add: sample_collaborators_def mask_orientation_of_def reverse_columns_def det3_def)

lemma off_grid_projected:
  "project_contours ((1, 0, 0), (0, 1, 0), (0, 0, 1))
     [\<lparr>contour = [[(1 / 2, 1, 1), (1 / 2, 1, 5), (1 / 2, 3, 5), (1 / 2, 3, 1)]]\<rparr>,
      \<lparr>contour = [[(3 / 2, 1, 1), (3 / 2, 1, 5), (3 / 2, 3, 5), (3 / 2, 3, 1)]]\<rparr>] = off_grid_points"
  by (simp add: project_contours_def sub_contours_of_def to_voxel_coordinates_unit off_grid_points_def)

lemma gaps_two: "a < b \<Longrightarrow> gaps {a, b} = {b - a}"
  by (auto simp: gaps_def)

lemma off_grid_spec_grid:
  "spec_synthetic_grid (1, 1, 1) off_grid_points = ((1, 1, 1), (1 / 2, 0, 0), (1, 4, 6))"
  by (simp add: spec_synthetic_grid_def off_grid_points_def gaps_two Let_def)

lemma create_off_grid_image:
  "create_image_from_contour sample_collaborators off_grid_roi unit_image True False = Inr synthetic_image"
proof -
  have "create_image_from_contour sample_collaborators off_grid_roi unit_image True False =
      (case spec_synthetic_grid (image_spacing unit_image) off_grid_points of
         (mask_spacing, mask_origin, mask_dimension) \<Rightarrow>
           Inr (unit_image\<lparr>image_spacing := mask_spacing, image_origin := mask_origin,
                  image_dimension := mask_dimension,
                  image_orientation := ((1, 0, 0), (0, 1, 0), (0, 0, 1))\<rparr>))"
    unfolding off_grid_roi_def
    apply (rule create_image_full_synthetic[OF collect_two_contours])
         apply (simp add: orientation_points_def)
        apply (simp add: sample_orientation)
       apply (simp add: off_grid_projected)
      apply (simp add: off_grid_points_def)
     apply (simp add: unit_image_def)
    apply (simp add: unit_image_def)
    done
  then show ?thesis
    by (simp add: off_grid_spec_grid unit_image_def synthetic_image_def)
qed


subsection \<open>The grid descriptor of an emitted mask\<close>

lemma upt_4: "[0..<4] = [0, 1, 2, 3]" and upt_6: "[0..<6] = [0, 1, 2, 3, 4, 5]"
  and upt_1: "[0..<1] = [0]" and upt_2: "[0..<2] = [0, 1]"
  by (simp_all add: upt_rec)

lemma voxel_synthetic:
  "contour_to_voxel_coordinates synthetic_image \<lparr>contour = [[(z, 1, 1), (z, 1, 5), (z, 3, 5), (z, 3, 1)]]\<rparr>
     = rectangle_at (z - 1 / 2)"
  by (simp add: contour_to_voxel_coordinates_def synthetic_image_def to_voxel_coordinates_def
      inverse3_identity mat_vec_def rectangle_at_def)

lemma which_slice_sample:
  "which_slice sample_collaborators (rectangle_at 0) = [0]"
  "which_slice sample_collaborators (rectangle_at 1) = [1]"
  by (simp_all add: sample_collaborators_def rectangle_at_def np_unique_int_def)

lemma merge_sample:
  "merge_contours sample_collaborators [rectangle_at 0, rectangle_at 1] = Inr [rectangle_at 0, rectangle_at 1]"
  by (simp add: merge_contours_def which_slice_sample np_unique_int_def)
     (simp add: sample_collaborators_def rectangle_at_def)

lemma vertex_grid_rectangle:
  "vertex_grid 4 6 [(z, 1, 1), (z, 1, 5), (z, 3, 5), (z, 3, 1)] = off_grid_plane"
  by (simp add: vertex_grid_def off_grid_plane_def upt_4 upt_6)

lemma np_round_0: "np_round 0 = 0" and np_round_1: "np_round 1 = 1"
  by (simp_all add: np_round_def)

lemma ray_cast_sample:
  "contour_to_grid_ray_cast sample_collaborators (rectangle_at 0) synthetic_image = [(0, off_grid_plane)]"
  "contour_to_grid_ray_cast sample_collaborators (rectangle_at 1) synthetic_image = [(1, off_grid_plane)]"
  by (simp_all add: sample_collaborators_def rectangle_at_def synthetic_image_def
      vertex_grid_rectangle np_round_0 np_round_1)

lemma rasterize_sample:
  "rasterize sample_collaborators synthetic_image ''ray_cast'' [rectangle_at 0, rectangle_at 1]
     = Inr [(0, off_grid_plane), (1, off_grid_plane)]"
  by (simp add: ray_cast_sample)

lemma known_sample: "get_slice_position sample_collaborators synthetic_image = [0]"
  by (simp add: sample_collaborators_def synthetic_image_def upt_1)

lemma select_sample:
  "select_slices [0] 1 1 [off_grid_plane, off_grid_plane] [0, 1] = Inr (Some ([off_grid_plane], [0]))"
  by (simp add: select_slices_def match_slice_position_def argwhere_zero_def
      position_difference_def np_around3_zero np_around3_positive_integer[of Num.One, simplified]
      retain_matched_def retain_non_negative_def retain_in_range_def List.map_filter_simps
      upt_1 upt_2)

lemma logical_or_sample:
  "logical_or_into (4, 6) (replicate 4 (replicate 6 False)) off_grid_plane = Inr off_grid_plane"
  by (simp add: logical_or_into_def off_grid_plane_def upt_4 upt_6 numeral_eq_Suc)

lemma collect_off_grid:
  "collect_contours off_grid_roi =
     Inr (Some [\<lparr>contour = [[(1 / 2, 1, 1), (1 / 2, 1, 5), (1 / 2, 3, 5), (1 / 2, 3, 1)]]\<rparr>,
                \<lparr>contour = [[(3 / 2, 1, 1), (3 / 2, 1, 5), (3 / 2, 3, 5), (3 / 2, 3, 1)]]\<rparr>])"
  unfolding off_grid_roi_def by (rule collect_two_contours)

lemma convert_off_grid_on_synthetic_image:
  "convert_contour_to_mask sample_collaborators off_grid_roi (Some synthetic_image) ''ray_cast''
     ''keep_as_is'' = Inr (Some [off_grid_plane])"
proof -
  have dims: "image_dimension synthetic_image = (1, 4, 6)" "image_spacing synthetic_image = (1, 1, 1)"
    by (simp_all add: synthetic_image_def)
  have zeros: "np_zeros (1, 4, 6) = Inr [replicate 4 (replicate 6 False)]"
    by (simp add: np_zeros_def)
  show ?thesis
    by (simp add: convert_contour_to_mask_def collect_off_grid voxel_synthetic merge_sample
        ray_cast_sample known_sample dims zeros select_sample logical_or_sample)
qed

lemma convert_off_grid_decision:
  "convert_contour_using_image (plain_structure_set rois) off_grid_roi (Some unit_image)
     = Inr (False, True, False)"
  apply (simp add: convert_contour_using_image_def collect_off_grid)
  apply (simp add: sub_contours_of_def contour_to_voxel_unit_image slice_positions_def
      allclose_def isclose_def np_round_def)
  done

lemma np_any_off_grid: "np_any [off_grid_plane]"
  by (simp add: np_any_def true_voxels_def indices3_def lookup3_def off_grid_plane_def
      upt_1 upt_4 upt_6)

lemma roi_to_mask_grid:
  assumes "roi_to_mask c self img disconnected_segments roi = Inr (Some m)"
  shows "mask_image_origin m = image_origin img \<and> mask_image_spacing m = image_spacing img
         \<and> mask_image_dimensions m = image_dimension img
         \<and> mask_image_orientation m = image_orientation img"
  using assms
  by (auto simp: roi_to_mask_def split: sum.splits prod.splits option.splits if_splits)


lemma roi_loop_grid:
  assumes "roi_loop c self img disconnected_segments rois = Inr masks" and "m \<in> set masks"
  shows "mask_image_origin m = image_origin img \<and> mask_image_spacing m = image_spacing img
         \<and> mask_image_dimensions m = image_dimension img
         \<and> mask_image_orientation m = image_orientation img"
  using assms
proof (induction rois arbitrary: masks)
  case Nil
  then show ?case by simp
next
  case (Cons roi rois)
  show ?case
  proof (cases "referenced_roi_number roi \<notin> snd ` set (rois_present self)")
    case True
    then show ?thesis using Cons by simp
  next
    case False
    then obtain produced rest where p: "roi_to_mask c self img disconnected_segments roi = Inr produced"
      and r: "roi_loop c self img disconnected_segments rois = Inr rest"
      and ms: "masks = (case produced of None \<Rightarrow> [] | Some m \<Rightarrow> [m]) @ rest"
      using Cons.prems(1) by (auto split: sum.splits)
    show ?thesis
    proof (cases "m \<in> set rest")
      case True
      then show ?thesis using Cons.IH[OF r] by simp
    next
      case False
      then have "produced = Some m" using Cons.prems(2) ms by (auto split: option.splits)
      then show ?thesis using p roi_to_mask_grid by simp
    qed
  qed
qed

lemma to_object_masks_carry_image_grid:
  assumes "to_object c self (Some img) disconnected_segments = Inr (Some masks)" and "m \<in> set masks"
  shows "mask_image_origin m = image_origin img \<and> mask_image_spacing m = image_spacing img
         \<and> mask_image_dimensions m = image_dimension img
         \<and> mask_image_orientation m = image_orientation img"
proof -
  have "roi_loop c self img disconnected_segments (roi_contour_sequences self) = Inr masks"
    using assms(1) by (auto simp: to_object_def split: if_splits sum.splits)
  then show ?thesis using assms(2) by (rule roi_loop_grid)
qed

lemma rois_present_plain: "rois_present (plain_structure_set rois) = [(Some ''GTV'', Some 1)]"
  by (simp add: rois_present_def plain_structure_set_def provided_roi_names_def)

lemma to_object_off_grid:
  "to_object sample_collaborators (plain_structure_set [off_grid_roi]) (Some unit_image) ''keep_as_is'' =
     Inr (Some [\<lparr>mask_roi_name = Some ''GTV'', mask_sample_name = Some ''patient'',
                  mask_image_modality = Some ''rtstruct'', mask_image_data = [off_grid_plane],
                  mask_image_spacing = (1, 1, 1), mask_image_origin = (0, 0, 0),
                  mask_image_orientation = ((1, 0, 0), (0, 1, 0), (0, 0, 1)),
                  mask_image_dimensions = (10, 10, 10)\<rparr>])"
proof -
  have num: "referenced_roi_number off_grid_roi = Some 1"
    by (simp add: off_grid_roi_def roi_of_def)
  have name: "current_roi_name (plain_structure_set [off_grid_roi]) (Some 1) = Inr (Some ''GTV'')"
    by (simp add: current_roi_name_def rois_present_plain) (simp add: plain_structure_set_def)
  have chk: "check_mask (plain_structure_set [off_grid_roi])"
    by (simp add: check_mask_def plain_structure_set_def)
  have fields: "sample_name (plain_structure_set [off_grid_roi]) = Some ''patient''"
    "modality (plain_structure_set [off_grid_roi]) = Some ''rtstruct''"
    "roi_contour_sequences (plain_structure_set [off_grid_roi]) = [off_grid_roi]"
    by (simp_all add: plain_structure_set_def)
  have img: "image_spacing unit_image = (1, 1, 1)" "image_origin unit_image = (0, 0, 0)"
    "image_orientation unit_image = ((1, 0, 0), (0, 1, 0), (0, 0, 1))"
    "image_dimension unit_image = (10, 10, 10)"
    by (simp_all add: unit_image_def)
  have mask: "roi_to_mask sample_collaborators (plain_structure_set [off_grid_roi]) unit_image
       ''keep_as_is'' off_grid_roi =
     Inr (Some \<lparr>mask_roi_name = Some ''GTV'', mask_sample_name = Some ''patient'',
                  mask_image_modality = Some ''rtstruct'', mask_image_data = [off_grid_plane],
                  mask_image_spacing = (1, 1, 1), mask_image_origin = (0, 0, 0),
                  mask_image_orientation = ((1, 0, 0), (0, 1, 0), (0, 0, 1)),
                  mask_image_dimensions = (10, 10, 10)\<rparr>)"
    by (simp add: roi_to_mask_def convert_off_grid_decision create_off_grid_image
        convert_off_grid_on_synthetic_image np_any_off_grid num name fields img)
  show ?thesis
    by (simp add: to_object_def chk rois_present_plain fields num mask)
qed

text \<open>
  Claim C1 (the code differs). An ROI of two rectangles at the slice positions 1/2 and
  3/2 of the example image: the position check fails, reference-image use is rejected,
  and the mask is rasterized on the temporary image, whose grid has the origin
  (1/2, 0, 0) and the dimension (1, 4, 6). The mask object that \<^verbatim>\<open>to_object\<close> emits
  holds that array of 1 x 4 x 6 voxels and the descriptor of the reference image: origin
  (0, 0, 0) and dimension (10, 10, 10).
\<close>

theorem rejected_roi_mask_carries_reference_grid:
  "convert_contour_using_image (plain_structure_set [off_grid_roi]) off_grid_roi (Some unit_image)
     = Inr (False, True, False)
   \<and> create_image_from_contour sample_collaborators off_grid_roi unit_image True False
       = Inr synthetic_image
   \<and> convert_contour_to_mask sample_collaborators off_grid_roi (Some synthetic_image)
       ''ray_cast'' ''keep_as_is'' = Inr (Some [off_grid_plane])
   \<and> to_object sample_collaborators (plain_structure_set [off_grid_roi]) (Some unit_image)
       ''keep_as_is'' =
       Inr (Some [\<lparr>mask_roi_name = Some ''GTV'', mask_sample_name = Some ''patient'',
                    mask_image_modality = Some ''rtstruct'', mask_image_data = [off_grid_plane],
                    mask_image_spacing = (1, 1, 1), mask_image_origin = (0, 0, 0),
                    mask_image_orientation = ((1, 0, 0), (0, 1, 0), (0, 0, 1)),
                    mask_image_dimensions = (10, 10, 10)\<rparr>])
   \<and> image_origin synthetic_image = (1 / 2, 0, 0)
   \<and> image_dimension synthetic_image = (1, 4, 6)"
  using convert_off_grid_decision create_off_grid_image convert_off_grid_on_synthetic_image
    to_object_off_grid
  by (simp add: synthetic_image_def)

subsection \<open>Connected regions and the largest of them\<close>

lemma set_grow_step:
  "set (filter (\<lambda>w. w \<in> set cur \<or> list_ex (\<lambda>u. adj u w) cur) S) = step_set adj S (set cur)"
  by (auto simp: step_set_def list_ex_iff)

lemma set_grow: "set (grow adj S n cur) = (step_set adj S ^^ n) (set cur)"
  by (induction n arbitrary: cur) (simp_all add: set_grow_step funpow_swap1 del: set_filter)

lemma step_set_within: "step_set adj S A \<subseteq> set S"
  by (auto simp: step_set_def)

lemma step_set_grows: "A \<subseteq> set S \<Longrightarrow> A \<subseteq> step_set adj S A"
  by (auto simp: step_set_def)

lemma iterate_within: "A \<subseteq> set S \<Longrightarrow> (step_set adj S ^^ n) A \<subseteq> set S"
  by (induction n) (simp_all add: step_set_within)

lemma iterate_grows: "A \<subseteq> set S \<Longrightarrow> (step_set adj S ^^ n) A \<subseteq> (step_set adj S ^^ Suc n) A"
  using step_set_grows[OF iterate_within] by simp

lemma iterate_card:
  assumes "A \<subseteq> set S" and "\<forall>k<n. (step_set adj S ^^ k) A \<noteq> (step_set adj S ^^ Suc k) A"
  shows "card A + n \<le> card ((step_set adj S ^^ n) A)"
  using assms(2)
proof (induction n)
  case 0
  then show ?case by simp
next
  case (Suc n)
  have "(step_set adj S ^^ n) A \<subset> (step_set adj S ^^ Suc n) A"
    using iterate_grows[OF assms(1), where adj = adj and n = n] Suc.prems by blast
  moreover have "finite ((step_set adj S ^^ Suc n) A)"
    using iterate_within[OF assms(1)] by (rule finite_subset) simp
  ultimately have "card ((step_set adj S ^^ n) A) < card ((step_set adj S ^^ Suc n) A)"
    by (rule psubset_card_mono[rotated])
  then show ?case using Suc by force
qed

lemma fixpoint_stays: "f X = X \<Longrightarrow> (f ^^ m) X = X"
  by (induction m) simp_all

lemma iterate_fixpoint:
  assumes "A \<subseteq> set S" and "A \<noteq> {}"
  shows "step_set adj S ((step_set adj S ^^ length S) A) = (step_set adj S ^^ length S) A"
proof -
  let ?f = "step_set adj S" and ?n = "length S"
  have "\<exists>k<?n. (?f ^^ k) A = (?f ^^ Suc k) A"
  proof (rule ccontr)
    assume "\<not> ?thesis"
    then have "card A + ?n \<le> card ((?f ^^ ?n) A)"
      using iterate_card[OF assms(1)] by blast
    moreover have "card ((?f ^^ ?n) A) \<le> card (set S)"
      using iterate_within[OF assms(1)] by (intro card_mono) simp_all
    moreover have "card (set S) \<le> ?n" by (rule card_length)
    moreover have "0 < card A"
      using assms finite_subset[OF assms(1)] by (simp add: card_gt_0_iff)
    ultimately show False by linarith
  qed
  then obtain k where k: "k < ?n" and fx: "?f ((?f ^^ k) A) = (?f ^^ k) A" by auto
  have "(?f ^^ ?n) A = (?f ^^ (?n - k)) ((?f ^^ k) A)"
    using k by (simp add: funpow_add[symmetric, unfolded o_def, THEN fun_cong] del: funpow.simps)
  also have "\<dots> = (?f ^^ k) A" using fx by (rule fixpoint_stays)
  finally show ?thesis using fx by simp
qed


lemma iterate_reachable:
  assumes "v \<in> set S"
  shows "(step_set adj S ^^ n) {v} \<subseteq> reachable adj S v"
proof (induction n)
  case 0
  then show ?case by (simp add: reachable_def)
next
  case (Suc n)
  let ?A = "(step_set adj S ^^ n) {v}"
  have within: "?A \<subseteq> set S"
    using assms by (intro iterate_within) simp
  have "step_set adj S ?A \<subseteq> reachable adj S v"
  proof
    fix w assume "w \<in> step_set adj S ?A"
    then consider "w \<in> ?A" | u where "u \<in> ?A" "adj u w" "w \<in> set S"
      unfolding step_set_def by blast
    then show "w \<in> reachable adj S v"
    proof cases
      case 1
      then show ?thesis using Suc by blast
    next
      case 2
      have "(v, u) \<in> (adjacency adj S)\<^sup>*" using Suc 2(1) unfolding reachable_def by blast
      moreover have "(u, w) \<in> adjacency adj S" using 2 within unfolding adjacency_def by blast
      ultimately have "(v, w) \<in> (adjacency adj S)\<^sup>*" by (rule rtrancl_into_rtrancl)
      then show ?thesis unfolding reachable_def by simp
    qed
  qed
  then show ?case by simp
qed

lemma reachable_within_fixpoint:
  assumes "step_set adj S F = F" and "v \<in> F"
  shows "reachable adj S v \<subseteq> F"
proof
  fix w assume "w \<in> reachable adj S v"
  then have "(v, w) \<in> (adjacency adj S)\<^sup>*" by (simp add: reachable_def)
  then show "w \<in> F"
  proof (induction rule: rtrancl_induct)
    case base
    then show ?case by (rule assms(2))
  next
    case (step y z)
    then have "z \<in> set S" "adj y z" unfolding adjacency_def by blast+
    then have "z \<in> step_set adj S F" using step(3) unfolding step_set_def by blast
    then show ?case by (simp add: assms(1))
  qed
qed

lemma start_in_iterate:
  assumes "v \<in> set S"
  shows "v \<in> (step_set adj S ^^ m) {v}"
proof (induction m)
  case 0
  then show ?case by simp
next
  case (Suc m)
  have "{v} \<subseteq> set S" using assms by simp
  from iterate_grows[OF this, where adj = adj and n = m] Suc show ?case by blast
qed

lemma set_region_of:
  assumes "v \<in> set S"
  shows "set (region_of adj S v) = reachable adj S v"
proof
  have eq: "set (region_of adj S v) = (step_set adj S ^^ length S) {v}"
    unfolding region_of_def set_grow by simp
  show "set (region_of adj S v) \<subseteq> reachable adj S v"
    unfolding eq by (rule iterate_reachable[OF assms])
  have start: "{v} \<subseteq> set S" "{v} \<noteq> {}" using assms by simp_all
  show "reachable adj S v \<subseteq> set (region_of adj S v)"
    unfolding eq
    by (rule reachable_within_fixpoint[OF iterate_fixpoint[OF start] start_in_iterate[OF assms]])
qed


lemma distinct_grow:
  assumes "distinct S" and "distinct cur"
  shows "distinct (grow adj S n cur)"
  using assms(2)
proof (induction n arbitrary: cur)
  case 0
  then show ?case by simp
next
  case (Suc n)
  have "distinct (filter (\<lambda>w. w \<in> set cur \<or> list_ex (\<lambda>u. adj u w) cur) S)"
    using assms(1) by (rule distinct_filter)
  then show ?case unfolding grow.simps by (rule Suc.IH)
qed

lemma distinct_region_of: "distinct S \<Longrightarrow> distinct (region_of adj S v)"
  unfolding region_of_def by (rule distinct_grow) simp_all

lemma reachable_self: "v \<in> reachable adj S v"
  unfolding reachable_def by simp

lemma reachable_within:
  assumes "v \<in> set S"
  shows "reachable adj S v \<subseteq> set S"
proof
  fix w assume "w \<in> reachable adj S v"
  then have "(v, w) \<in> (adjacency adj S)\<^sup>*" unfolding reachable_def by simp
  then show "w \<in> set S"
  proof (induction rule: rtrancl_induct)
    case base
    then show ?case by (rule assms)
  next
    case (step y z)
    then show ?case unfolding adjacency_def by blast
  qed
qed

lemma reachable_trans:
  assumes "u \<in> reachable adj S v" and "w \<in> reachable adj S u"
  shows "w \<in> reachable adj S v"
proof -
  have "(v, u) \<in> (adjacency adj S)\<^sup>*" "(u, w) \<in> (adjacency adj S)\<^sup>*"
    using assms unfolding reachable_def by simp_all
  then have "(v, w) \<in> (adjacency adj S)\<^sup>*" by (rule rtrancl_trans)
  then show ?thesis unfolding reachable_def by simp
qed

lemma reachable_sym:
  assumes "symp adj" and "w \<in> reachable adj S v"
  shows "v \<in> reachable adj S w"
proof -
  have "sym (adjacency adj S)"
    unfolding sym_def adjacency_def using assms(1)[unfolded symp_def] by blast
  then have "sym ((adjacency adj S)\<^sup>*)" by (rule sym_rtrancl)
  moreover have "(v, w) \<in> (adjacency adj S)\<^sup>*" using assms(2) unfolding reachable_def by simp
  ultimately have "(w, v) \<in> (adjacency adj S)\<^sup>*" by (rule symD)
  then show ?thesis unfolding reachable_def by simp
qed

lemma reachable_class:
  assumes "symp adj" and "w \<in> reachable adj S v"
  shows "reachable adj S w = reachable adj S v"
proof
  show "reachable adj S w \<subseteq> reachable adj S v"
    using reachable_trans[OF assms(2)] by (rule subsetI)
  show "reachable adj S v \<subseteq> reachable adj S w"
    using reachable_trans[OF reachable_sym[OF assms]] by (rule subsetI)
qed


lemma reachable_restrict:
  assumes "set S' \<subseteq> set S" and "\<forall>x \<in> set S'. reachable adj S x \<subseteq> set S'" and "x \<in> set S'"
  shows "reachable adj S' x = reachable adj S x"
proof
  have sub: "adjacency adj S' \<subseteq> adjacency adj S"
    using assms(1) unfolding adjacency_def by blast
  show "reachable adj S' x \<subseteq> reachable adj S x"
    unfolding reachable_def using rtrancl_mono[OF sub] by blast
  show "reachable adj S x \<subseteq> reachable adj S' x"
  proof
    fix w assume "w \<in> reachable adj S x"
    then have "(x, w) \<in> (adjacency adj S)\<^sup>*" unfolding reachable_def by simp
    then have "(x, w) \<in> (adjacency adj S')\<^sup>*"
    proof (induction rule: rtrancl_induct)
      case base
      then show ?case by simp
    next
      case (step y z)
      have y: "y \<in> reachable adj S x" using step(1) unfolding reachable_def by simp
      have "(x, z) \<in> (adjacency adj S)\<^sup>*" using step(1,2) by (rule rtrancl_into_rtrancl)
      then have z: "z \<in> reachable adj S x" unfolding reachable_def by simp
      have "y \<in> set S'" "z \<in> set S'" using y z assms(2,3) by blast+
      moreover have "adj y z" using step(2) unfolding adjacency_def by blast
      ultimately have "(y, z) \<in> adjacency adj S'" unfolding adjacency_def by blast
      with step(3) show ?case by (rule rtrancl_into_rtrancl)
    qed
    then show "w \<in> reachable adj S' x" unfolding reachable_def by simp
  qed
qed

lemma label_of_Cons:
  "label_of (C # R) w = (if w \<in> set C then 1 else if label_of R w = 0 then 0 else Suc (label_of R w))"
  by simp

lemma label_regions_spec:
  assumes "symp adj" and "distinct S"
  shows "(\<forall>i < length (label_regions adj S).
            set (label_regions adj S ! i) = {w. label_of (label_regions adj S) w = Suc i}
            \<and> distinct (label_regions adj S ! i)
            \<and> (\<exists>x \<in> set S. set (label_regions adj S ! i) = reachable adj S x))
         \<and> (\<forall>u \<in> set S. label_of (label_regions adj S) u \<noteq> 0)"
  using assms
proof (induction adj S rule: label_regions.induct)
  case (1 adj)
  then show ?case by simp
next
  case (2 adj v rest)
  define S where "S = v # rest"
  define C where "C = region_of adj S v"
  define S'' where "S'' = filter (\<lambda>w. w \<notin> set C) rest"
  define R where "R = label_regions adj S''"
  have sym: "symp adj" by (rule 2(2))
  have dS: "distinct S" using 2(3) unfolding S_def .
  have vS: "v \<in> set S" unfolding S_def by simp
  have regions: "label_regions adj S = C # R"
    unfolding S_def R_def S''_def C_def by simp
  have cset: "set C = reachable adj S v"
    unfolding C_def by (rule set_region_of[OF vS])
  have vC: "v \<in> set C" unfolding cset by (rule reachable_self)
  have dC: "distinct C" unfolding C_def by (rule distinct_region_of[OF dS])
  have dS'': "distinct S''" unfolding S''_def using dS unfolding S_def by simp
  have setS'': "set S'' = set S - set C"
    unfolding S''_def S_def using vC by auto
  have closed: "\<forall>x \<in> set S''. reachable adj S x \<subseteq> set S''"
  proof (intro ballI subsetI)
    fix x w assume x: "x \<in> set S''" and w: "w \<in> reachable adj S x"
    have xS: "x \<in> set S" using x setS'' by simp
    have wS: "w \<in> set S" using reachable_within[OF xS] w by blast
    have "w \<notin> set C"
    proof
      assume "w \<in> set C"
      then have "w \<in> reachable adj S v" unfolding cset .
      moreover have "x \<in> reachable adj S w" using sym w by (rule reachable_sym)
      ultimately have "x \<in> reachable adj S v" by (rule reachable_trans)
      then show False using x setS'' cset by simp
    qed
    then show "w \<in> set S''" using wS setS'' by simp
  qed
  have subS: "set S'' \<subseteq> set S" using setS'' by blast
  have restrict: "\<And>x. x \<in> set S'' \<Longrightarrow> reachable adj S'' x = reachable adj S x"
    by (rule reachable_restrict[OF subS closed])
  have IH: "(\<forall>i < length R. set (R ! i) = {w. label_of R w = Suc i} \<and> distinct (R ! i)
              \<and> (\<exists>x \<in> set S''. set (R ! i) = reachable adj S'' x))
            \<and> (\<forall>u \<in> set S''. label_of R u \<noteq> 0)"
    using 2(1)[OF sym dS''[unfolded S''_def C_def S_def]]
    unfolding R_def S''_def C_def S_def .
  have part1: "set ((C # R) ! i) = {w. label_of (C # R) w = Suc i} \<and> distinct ((C # R) ! i)
        \<and> (\<exists>x \<in> set S. set ((C # R) ! i) = reachable adj S x)" if i: "i < length (C # R)" for i
  proof (cases i)
    case 0
    have "{w. label_of (C # R) w = Suc 0} = set C"
      unfolding label_of_Cons by auto
    then show ?thesis using 0 dC cset vS by auto
  next
    case (Suc j)
    then have j: "j < length R" using i by simp
    from IH j obtain x where rj: "set (R ! j) = {w. label_of R w = Suc j}" and dj: "distinct (R ! j)"
      and x: "x \<in> set S''" and cls: "set (R ! j) = reachable adj S'' x" by blast
    have within: "set (R ! j) \<subseteq> set S''"
      unfolding cls by (rule reachable_within[OF x])
    have "{w. label_of (C # R) w = Suc (Suc j)} = {w. w \<notin> set C \<and> label_of R w = Suc j}"
      unfolding label_of_Cons by auto
    also have "\<dots> = set (R ! j) - set C" unfolding rj by blast
    also have "\<dots> = set (R ! j)" using within setS'' by blast
    finally have a: "set ((C # R) ! i) = {w. label_of (C # R) w = Suc i}" using Suc by simp
    have b: "distinct ((C # R) ! i)" using Suc dj by simp
    have "x \<in> set S" using x subS by blast
    moreover have "set ((C # R) ! i) = reachable adj S x"
      using Suc cls restrict[OF x] by simp
    ultimately have c: "\<exists>x \<in> set S. set ((C # R) ! i) = reachable adj S x" by blast
    show ?thesis using a b c by blast
  qed
  have part2: "label_of (C # R) u \<noteq> 0" if u: "u \<in> set S" for u
  proof (cases "u \<in> set C")
    case True
    then show ?thesis by simp
  next
    case False
    then have "u \<in> set S''" using u setS'' by simp
    then have "label_of R u \<noteq> 0" using IH by blast
    then show ?thesis using False by simp
  qed
  show ?case
    unfolding regions[unfolded S_def] using part1 part2 unfolding S_def by blast
qed


lemma indices3_iff:
  "(z, y, x) \<in> set (indices3 vol) \<longleftrightarrow> z < length vol \<and> y < length (vol ! z) \<and> x < length (vol ! z ! y)"
  by (force simp: indices3_def)

lemma distinct_concat_upt:
  assumes "\<And>i. i < n \<Longrightarrow> distinct (f i)"
    and "\<And>i j. i < n \<Longrightarrow> j < i \<Longrightarrow> set (f i) \<inter> set (f j) = {}"
  shows "distinct (concat (map f [0..<n]))"
  using assms
proof (induction n)
  case 0
  then show ?case by simp
next
  case (Suc n)
  have "distinct (concat (map f [0..<n]))"
    using Suc.prems by (intro Suc.IH) auto
  moreover have "distinct (f n)" using Suc.prems(1) by simp
  moreover have "set (concat (map f [0..<n])) \<inter> set (f n) = {}"
    using Suc.prems(2)[of n] by (fastforce simp: disjoint_iff)
  ultimately show ?case by simp
qed

lemma distinct_indices3: "distinct (indices3 vol)"
  unfolding indices3_def
proof (rule distinct_concat_upt)
  fix z
  show "distinct (concat (map (\<lambda>y. map (\<lambda>x. (z, y, x)) [0..<length (vol ! z ! y)]) [0..<length (vol ! z)]))"
    by (rule distinct_concat_upt) (auto simp: distinct_map inj_on_def)
next
  fix z z' :: nat assume "z' < z"
  then show "set (concat (map (\<lambda>y. map (\<lambda>x. (z, y, x)) [0..<length (vol ! z ! y)]) [0..<length (vol ! z)]))
      \<inter> set (concat (map (\<lambda>y. map (\<lambda>x. (z', y, x)) [0..<length (vol ! z' ! y)]) [0..<length (vol ! z')])) = {}"
    by auto
qed

lemma lookup3_imap3:
  assumes "v \<in> set (indices3 vol)"
  shows "lookup3 (imap3 f vol) v = f v (lookup3 vol v)"
proof -
  obtain z y x where v: "v = (z, y, x)" by (cases v)
  show ?thesis using assms unfolding v by (simp add: indices3_iff imap3_def lookup3_def)
qed

lemma indices3_imap3: "indices3 (imap3 f vol) = indices3 vol"
proof -
  have len: "length (imap3 f vol) = length vol" by (simp add: imap3_def)
  have len2: "\<And>z. z < length vol \<Longrightarrow> length (imap3 f vol ! z) = length (vol ! z)"
    by (simp add: imap3_def)
  have len3: "\<And>z y. z < length vol \<Longrightarrow> y < length (vol ! z)
      \<Longrightarrow> length (imap3 f vol ! z ! y) = length (vol ! z ! y)"
    by (simp add: imap3_def)
  show ?thesis
    unfolding indices3_def len
    by (intro arg_cong[where f = concat] map_cong refl) (simp_all add: len2 len3)
qed

lemma set_true_voxels: "set (true_voxels vol) = {v \<in> set (indices3 vol). lookup3 vol v}"
  by (auto simp: true_voxels_def)

lemma distinct_true_voxels: "distinct (true_voxels vol)"
  by (simp add: true_voxels_def distinct_indices3)


lemma imap3_pointwise:
  assumes "\<And>v. v \<in> set (indices3 vol) \<Longrightarrow> f v (lookup3 vol v) = g v (lookup3 vol v)"
  shows "imap3 f vol = imap3 g vol"
proof -
  have "f (z, y, x) (vol ! z ! y ! x) = g (z, y, x) (vol ! z ! y ! x)"
    if "z < length vol" "y < length (vol ! z)" "x < length (vol ! z ! y)" for z y x
    using assms[of "(z, y, x)"] that by (simp add: indices3_iff lookup3_def)
  then show ?thesis by (simp add: imap3_def)
qed

lemma imap3_imap3: "imap3 f (imap3 g vol) = imap3 (\<lambda>v a. f v (g v a)) vol"
  by (simp add: imap3_def)

lemma label_of_le: "label_of R w \<le> length R"
  by (induction R) simp_all

lemma label_regions_nonempty: "S \<noteq> [] \<Longrightarrow> label_regions adj S \<noteq> []"
  by (cases S) simp_all

lemma filter_upt_first:
  assumes "filter P [0..<n] = k # ks"
  shows "P k \<and> k < n \<and> (\<forall>j<k. \<not> P j)"
proof -
  from assms obtain us vs where split: "[0..<n] = us @ k # vs" and no: "\<forall>u \<in> set us. \<not> P u"
    and pk: "P k"
    unfolding filter_eq_Cons_iff by blast
  have len: "length us < n" using arg_cong[OF split, of length] by simp
  have "[0..<n] ! length us = k" unfolding split by simp
  then have k: "k = length us" using len by simp
  have "take k [0..<n] = us" unfolding split k by simp
  moreover have "take k [0..<n] = [0..<k]" using len k by (simp add: take_upt)
  ultimately have "set us = set [0..<k]" by (simp only:)
  then have "\<forall>j<k. j \<in> set us" by simp
  then show ?thesis using no pk len k by blast
qed

lemma np_argmax_first_max:
  assumes "xs \<noteq> []"
  shows "\<exists>k. np_argmax xs = Inr k \<and> k < length xs \<and> (\<forall>j < length xs. xs ! j \<le> xs ! k)
           \<and> (\<forall>j < k. xs ! j < xs ! k)"
proof -
  obtain x rest where xs: "xs = x # rest" using assms by (cases xs) auto
  define M where "M = fold max rest x"
  have M: "M = Max (set xs)" unfolding M_def xs by (simp add: Max.set_eq_fold[symmetric])
  have "M \<in> set xs" unfolding M using assms by (intro Max_in) simp_all
  then obtain i where i: "i < length xs" "xs ! i = M" by (auto simp: in_set_conv_nth)
  then have "i \<in> set (filter (\<lambda>i. xs ! i = M) [0..<length xs])" by simp
  then obtain k ks where f: "filter (\<lambda>i. xs ! i = M) [0..<length xs] = k # ks"
    by (cases "filter (\<lambda>i. xs ! i = M) [0..<length xs]") auto
  from filter_upt_first[OF this] have k: "xs ! k = M" "k < length xs" "\<forall>j<k. xs ! j \<noteq> M"
    by auto
  have le: "\<And>j. j < length xs \<Longrightarrow> xs ! j \<le> M" unfolding M by simp
  have "np_argmax (x # rest) =
      (case filter (\<lambda>i. (x # rest) ! i = fold max rest x) [0..<length (x # rest)] of
         [] \<Rightarrow> Inl ValueError | i # _ \<Rightarrow> Inr i)"
    by (simp only: np_argmax_def list.case)
  then have "np_argmax xs =
      (case filter (\<lambda>i. xs ! i = M) [0..<length xs] of [] \<Rightarrow> Inl ValueError | i # _ \<Rightarrow> Inr i)"
    unfolding xs[symmetric] M_def[symmetric] .
  then have "np_argmax xs = Inr k"
    using f by (simp only: list.case)
  moreover have "\<forall>j < k. xs ! j < xs ! k"
    using k le by (metis le_neq_trans less_trans)
  ultimately show ?thesis using k le by auto
qed

lemma symp_neighbours: "symp (neighbours k)"
  unfolding symp_def neighbours_def dist_nat_def by (auto split: if_splits)


lemma label_regions_facts:
  assumes "symp adj" and "distinct S" and "i < length (label_regions adj S)"
  shows "set (label_regions adj S ! i) = {w. label_of (label_regions adj S) w = Suc i}"
    and "distinct (label_regions adj S ! i)"
    and "\<exists>x \<in> set S. set (label_regions adj S ! i) = reachable adj S x"
  using label_regions_spec[OF assms(1,2)] assms(3) by blast+

lemma label_regions_cover:
  assumes "symp adj" and "distinct S" and "u \<in> set S"
  shows "label_of (label_regions adj S) u \<noteq> 0"
  using label_regions_spec[OF assms(1,2)] assms(3) by blast

lemma count_label_region:
  fixes vol :: volume
  defines "R \<equiv> label_regions (neighbours 2) (true_voxels vol)"
  defines "L \<equiv> imap3 (\<lambda>v b. if b then label_of R v else 0) vol"
  assumes i: "i < length R"
  shows "count_label L (Suc i) = length (R ! i)"
proof -
  have dS: "distinct (true_voxels vol)" by (rule distinct_true_voxels)
  have lab: "set (R ! i) = {w. label_of R w = Suc i}"
    unfolding R_def by (rule label_regions_facts(1)[OF symp_neighbours dS i[unfolded R_def]])
  have dRi: "distinct (R ! i)"
    unfolding R_def by (rule label_regions_facts(2)[OF symp_neighbours dS i[unfolded R_def]])
  obtain x where x: "x \<in> set (true_voxels vol)" "set (R ! i) = reachable (neighbours 2) (true_voxels vol) x"
    using label_regions_facts(3)[OF symp_neighbours dS i[unfolded R_def]] unfolding R_def by blast
  have inS: "set (R ! i) \<subseteq> set (true_voxels vol)"
    unfolding x(2) by (rule reachable_within[OF x(1)])
  have lookL: "lookup3 L v = (if lookup3 vol v then label_of R v else 0)" if "v \<in> set (indices3 vol)" for v
    unfolding L_def by (rule lookup3_imap3[OF that])
  have "set (filter (\<lambda>v. lookup3 L v = Suc i) (indices3 vol)) = set (R ! i)"
  proof (intro set_eqI iffI)
    fix v assume "v \<in> set (filter (\<lambda>v. lookup3 L v = Suc i) (indices3 vol))"
    then have v: "v \<in> set (indices3 vol)" "lookup3 L v = Suc i" by simp_all
    have "label_of R v = Suc i"
    proof (cases "lookup3 vol v")
      case True
      then show ?thesis using v(2) lookL[OF v(1)] by simp
    next
      case False
      then show ?thesis using v(2) lookL[OF v(1)] by simp
    qed
    then show "v \<in> set (R ! i)" unfolding lab by simp
  next
    fix v assume v: "v \<in> set (R ! i)"
    then have "v \<in> set (true_voxels vol)" using inS by (rule subsetD[rotated])
    then have iv: "v \<in> set (indices3 vol)" and tv: "lookup3 vol v"
      unfolding set_true_voxels by simp_all
    have "label_of R v = Suc i" using v unfolding lab by simp
    then have "lookup3 L v = Suc i" using lookL[OF iv] tv by simp
    then show "v \<in> set (filter (\<lambda>v. lookup3 L v = Suc i) (indices3 vol))"
      using iv by simp
  qed
  then have c: "card (set (filter (\<lambda>v. lookup3 L v = Suc i) (indices3 vol))) = card (set (R ! i))"
    by (rule arg_cong)
  have "distinct (filter (\<lambda>v. lookup3 L v = Suc i) (indices3 vol))"
    using distinct_indices3 by (rule distinct_filter)
  then have a: "card (set (filter (\<lambda>v. lookup3 L v = Suc i) (indices3 vol)))
      = length (filter (\<lambda>v. lookup3 L v = Suc i) (indices3 vol))"
    by (rule distinct_card)
  have b: "card (set (R ! i)) = length (R ! i)" using dRi by (rule distinct_card)
  have "length (filter (\<lambda>v. lookup3 L v = Suc i) (indices3 vol)) = length (R ! i)"
    unfolding a[symmetric] b[symmetric] by (rule c)
  moreover have "indices3 L = indices3 vol" unfolding L_def by (rule indices3_imap3)
  ultimately show ?thesis unfolding count_label_def by simp
qed


lemma keep_largest_region_regions:
  fixes vol :: volume
  defines "R \<equiv> label_regions (neighbours 2) (true_voxels vol)"
  assumes any: "np_any vol"
  shows "\<exists>k < length R.
           keep_largest_region vol = Inr (imap3 (\<lambda>w b. w \<in> set (R ! k)) vol)
           \<and> (\<forall>j < length R. length (R ! j) \<le> length (R ! k))
           \<and> (\<forall>j < k. length (R ! j) < length (R ! k))"
proof -
  define L where "L = imap3 (\<lambda>v b. if b then label_of R v else 0) vol"
  have lab: "skimage_label 2 vol = (L, length R)"
    unfolding skimage_label_def L_def R_def Let_def ..
  have dS: "distinct (true_voxels vol)" by (rule distinct_true_voxels)
  have Rne: "map length R \<noteq> []"
    using label_regions_nonempty[OF any[unfolded np_any_def], of "neighbours 2"]
    unfolding R_def by simp
  have count: "count_label L (Suc i) = length (R ! i)" if "i < length R" for i
    using count_label_region[OF that[unfolded R_def]] unfolding L_def R_def .
  have sizes: "map (\<lambda>ii. count_label L (Suc ii)) [0..<length R] = map length R"
    by (rule nth_equalityI) (simp_all add: count)
  from np_argmax_first_max[OF Rne]
  obtain k where k1: "np_argmax (map length R) = Inr k" and k2: "k < length R"
    and k3: "\<forall>j < length R. map length R ! j \<le> map length R ! k"
    and k4: "\<forall>j < k. map length R ! j < map length R ! k"
    by auto
  have res: "keep_largest_region vol = Inr (imap3 (\<lambda>v l. l = k + 1) L)"
    unfolding keep_largest_region_def lab by (simp add: sizes k1 Let_def)
  have labk: "set (R ! k) = {w. label_of R w = Suc k}"
    unfolding R_def by (rule label_regions_facts(1)[OF symp_neighbours dS k2[unfolded R_def]])
  obtain x where x: "x \<in> set (true_voxels vol)" "set (R ! k) = reachable (neighbours 2) (true_voxels vol) x"
    using label_regions_facts(3)[OF symp_neighbours dS k2[unfolded R_def]] unfolding R_def by blast
  have inS: "set (R ! k) \<subseteq> set (true_voxels vol)"
    unfolding x(2) by (rule reachable_within[OF x(1)])
  have eq: "imap3 (\<lambda>v l. l = k + 1) L = imap3 (\<lambda>w b. w \<in> set (R ! k)) vol"
    unfolding L_def imap3_imap3
  proof (rule imap3_pointwise)
    fix v assume v: "v \<in> set (indices3 vol)"
    show "((if lookup3 vol v then label_of R v else 0) = k + 1) = (v \<in> set (R ! k))"
    proof (cases "lookup3 vol v")
      case True
      then show ?thesis unfolding labk by simp
    next
      case False
      then have "v \<notin> set (true_voxels vol)" unfolding set_true_voxels by simp
      then have "v \<notin> set (R ! k)" using inS by blast
      then show ?thesis using False by simp
    qed
  qed
  have k3': "\<forall>j < length R. length (R ! j) \<le> length (R ! k)"
    using k3 k2 by simp
  have k4': "\<forall>j < k. length (R ! j) < length (R ! k)"
    using k4 k2 by simp
  show ?thesis
    using k2 res[unfolded eq] k3' k4' by blast
qed


lemma region_of_voxel:
  fixes vol :: volume
  defines "R \<equiv> label_regions (neighbours 2) (true_voxels vol)"
  assumes u: "u \<in> set (true_voxels vol)"
  shows "\<exists>j < length R. label_of R u = Suc j \<and> region18 vol u = set (R ! j)
           \<and> card (region18 vol u) = length (R ! j)
           \<and> lookup3 (fst (skimage_label 2 vol)) u = Suc j"
proof -
  have dS: "distinct (true_voxels vol)" by (rule distinct_true_voxels)
  have "label_of R u \<noteq> 0"
    unfolding R_def by (rule label_regions_cover[OF symp_neighbours dS u])
  then obtain j where j: "label_of R u = Suc j" by (cases "label_of R u") simp_all
  have jlt: "j < length R" using label_of_le[of R u] j by simp
  have labj: "set (R ! j) = {w. label_of R w = Suc j}"
    unfolding R_def by (rule label_regions_facts(1)[OF symp_neighbours dS jlt[unfolded R_def]])
  have dj: "distinct (R ! j)"
    unfolding R_def by (rule label_regions_facts(2)[OF symp_neighbours dS jlt[unfolded R_def]])
  obtain x where x: "set (R ! j) = reachable (neighbours 2) (true_voxels vol) x"
    using label_regions_facts(3)[OF symp_neighbours dS jlt[unfolded R_def]] unfolding R_def by blast
  have "u \<in> set (R ! j)" unfolding labj using j by simp
  then have "u \<in> reachable (neighbours 2) (true_voxels vol) x" unfolding x .
  then have cls: "region18 vol u = set (R ! j)"
    unfolding region18_def x by (rule reachable_class[OF symp_neighbours])
  have card: "card (region18 vol u) = length (R ! j)"
    unfolding cls using dj by (rule distinct_card)
  have iv: "u \<in> set (indices3 vol)" and tv: "lookup3 vol u"
    using u unfolding set_true_voxels by simp_all
  have "lookup3 (imap3 (\<lambda>v b. if b then label_of R v else 0) vol) u
      = (if lookup3 vol u then label_of R u else 0)"
    by (rule lookup3_imap3[OF iv])
  then have "lookup3 (imap3 (\<lambda>v b. if b then label_of R v else 0) vol) u = label_of R u"
    using tv by simp
  then have "lookup3 (fst (skimage_label 2 vol)) u = label_of R u"
    unfolding skimage_label_def Let_def fst_conv R_def .
  then show ?thesis using j jlt cls card by simp
qed

lemma keep_largest_region_spec:
  assumes "np_any roi_mask"
  shows "\<exists>v \<in> set (true_voxels roi_mask).
           keep_largest_region roi_mask = Inr (imap3 (\<lambda>w b. w \<in> region18 roi_mask v) roi_mask)
           \<and> (\<forall>u \<in> set (true_voxels roi_mask). card (region18 roi_mask u) \<le> card (region18 roi_mask v))
           \<and> (\<forall>u \<in> set (true_voxels roi_mask).
                 card (region18 roi_mask u) = card (region18 roi_mask v) \<longrightarrow>
                 lookup3 (fst (skimage_label 2 roi_mask)) v \<le> lookup3 (fst (skimage_label 2 roi_mask)) u)"
proof -
  define R where "R = label_regions (neighbours 2) (true_voxels roi_mask)"
  have dS: "distinct (true_voxels roi_mask)" by (rule distinct_true_voxels)
  from keep_largest_region_regions[OF assms, folded R_def]
  obtain k where k: "k < length R"
    and res: "keep_largest_region roi_mask = Inr (imap3 (\<lambda>w b. w \<in> set (R ! k)) roi_mask)"
    and largest: "\<forall>j < length R. length (R ! j) \<le> length (R ! k)"
    and first: "\<forall>j < k. length (R ! j) < length (R ! k)"
    by blast
  obtain v where v: "v \<in> set (true_voxels roi_mask)"
    and rk: "set (R ! k) = reachable (neighbours 2) (true_voxels roi_mask) v"
    using label_regions_facts(3)[OF symp_neighbours dS k[unfolded R_def]] unfolding R_def by blast
  have rv: "region18 roi_mask v = set (R ! k)" unfolding region18_def rk ..
  have dk: "distinct (R ! k)"
    unfolding R_def by (rule label_regions_facts(2)[OF symp_neighbours dS k[unfolded R_def]])
  have cv: "card (region18 roi_mask v) = length (R ! k)"
    unfolding rv using dk by (rule distinct_card)
  have labk: "set (R ! k) = {w. label_of R w = Suc k}"
    unfolding R_def by (rule label_regions_facts(1)[OF symp_neighbours dS k[unfolded R_def]])
  have "v \<in> set (R ! k)" unfolding rk by (rule reachable_self)
  then have lv: "label_of R v = Suc k" unfolding labk by simp
  from region_of_voxel[OF v, folded R_def] lv
  have lookv: "lookup3 (fst (skimage_label 2 roi_mask)) v = Suc k" by auto
  have each: "card (region18 roi_mask u) \<le> card (region18 roi_mask v)
      \<and> (card (region18 roi_mask u) = card (region18 roi_mask v) \<longrightarrow>
           lookup3 (fst (skimage_label 2 roi_mask)) v \<le> lookup3 (fst (skimage_label 2 roi_mask)) u)"
    if u: "u \<in> set (true_voxels roi_mask)" for u
  proof -
    from region_of_voxel[OF u, folded R_def]
    obtain j where j: "j < length R" "card (region18 roi_mask u) = length (R ! j)"
      "lookup3 (fst (skimage_label 2 roi_mask)) u = Suc j" by blast
    have le: "length (R ! j) \<le> length (R ! k)" using largest j(1) by blast
    have "k \<le> j" if "length (R ! j) = length (R ! k)"
    proof (rule ccontr)
      assume "\<not> k \<le> j"
      then have "j < k" by simp
      then have "length (R ! j) < length (R ! k)" using first by blast
      then show False using that by simp
    qed
    then show ?thesis unfolding cv j(2,3) lookv using le by simp
  qed
  show ?thesis
    using v res[unfolded rv[symmetric]] each by blast
qed

lemma keep_largest_after_assembly:
  "convert_contour_to_mask c roi image_opt draw_method ''keep_largest'' =
     (case convert_contour_to_mask c roi image_opt draw_method ''keep_as_is'' of
        Inl e \<Rightarrow> Inl e
      | Inr None \<Rightarrow> Inr None
      | Inr (Some filled) \<Rightarrow>
          (case keep_largest_region filled of
             Inl e \<Rightarrow> Inl e
           | Inr largest \<Rightarrow> Inr (Some largest)))"
  by (simp add: convert_contour_to_mask_def split: option.splits sum.splits prod.splits)

lemma keep_largest_region_empty:
  assumes "\<not> np_any roi_mask"
  shows "keep_largest_region roi_mask = Inl ValueError"
  using assms
  by (simp add: keep_largest_region_def skimage_label_def np_any_def np_argmax_def)

text \<open>
  Claim C8, as the code has it. With the policy \<^verbatim>\<open>keep_largest\<close> the result is that of
  \<^verbatim>\<open>keep_as_is\<close>, the assembled volume, passed through the filter. The filter labels the
  connected regions for \<^verbatim>\<open>connectivity=2\<close>, which in three dimensions is the
  neighbourhood of 18 voxels (face and edge, no corner). For a volume with a true voxel
  it returns the volume whose true voxels are exactly those of one region; no region has
  more voxels, and a region with as many has no lower label.
\<close>

theorem keep_largest_keeps_largest_region:
  "convert_contour_to_mask c roi image_opt draw_method ''keep_largest'' =
     (case convert_contour_to_mask c roi image_opt draw_method ''keep_as_is'' of
        Inl e \<Rightarrow> Inl e
      | Inr None \<Rightarrow> Inr None
      | Inr (Some filled) \<Rightarrow>
          (case keep_largest_region filled of
             Inl e \<Rightarrow> Inl e
           | Inr largest \<Rightarrow> Inr (Some largest)))
   \<and> (np_any roi_mask \<longrightarrow>
        (\<exists>v \<in> set (true_voxels roi_mask).
           keep_largest_region roi_mask = Inr (imap3 (\<lambda>w b. w \<in> region18 roi_mask v) roi_mask)
           \<and> (\<forall>u \<in> set (true_voxels roi_mask). card (region18 roi_mask u) \<le> card (region18 roi_mask v))
           \<and> (\<forall>u \<in> set (true_voxels roi_mask).
                 card (region18 roi_mask u) = card (region18 roi_mask v) \<longrightarrow>
                 lookup3 (fst (skimage_label 2 roi_mask)) v
                   \<le> lookup3 (fst (skimage_label 2 roi_mask)) u)))"
proof (intro conjI impI)
  show "convert_contour_to_mask c roi image_opt draw_method ''keep_largest'' =
     (case convert_contour_to_mask c roi image_opt draw_method ''keep_as_is'' of
        Inl e \<Rightarrow> Inl e
      | Inr None \<Rightarrow> Inr None
      | Inr (Some filled) \<Rightarrow>
          (case keep_largest_region filled of
             Inl e \<Rightarrow> Inl e
           | Inr largest \<Rightarrow> Inr (Some largest)))"
    by (rule keep_largest_after_assembly)
next
  assume "np_any roi_mask"
  then show "\<exists>v \<in> set (true_voxels roi_mask).
           keep_largest_region roi_mask = Inr (imap3 (\<lambda>w b. w \<in> region18 roi_mask v) roi_mask)
           \<and> (\<forall>u \<in> set (true_voxels roi_mask). card (region18 roi_mask u) \<le> card (region18 roi_mask v))
           \<and> (\<forall>u \<in> set (true_voxels roi_mask).
                 card (region18 roi_mask u) = card (region18 roi_mask v) \<longrightarrow>
                 lookup3 (fst (skimage_label 2 roi_mask)) v
                   \<le> lookup3 (fst (skimage_label 2 roi_mask)) u)"
    by (rule keep_largest_region_spec)
qed

text \<open>A row with a region of two voxels and a region of one: the region of two is kept.\<close>

theorem keep_largest_keeps_largest_region_witness:
  "np_any line_volume
   \<and> (\<exists>v \<in> set (true_voxels line_volume).
         keep_largest_region line_volume = Inr (imap3 (\<lambda>w b. w \<in> region18 line_volume v) line_volume)
         \<and> (\<forall>u \<in> set (true_voxels line_volume). card (region18 line_volume u) \<le> card (region18 line_volume v))
         \<and> (\<forall>u \<in> set (true_voxels line_volume).
               card (region18 line_volume u) = card (region18 line_volume v) \<longrightarrow>
               lookup3 (fst (skimage_label 2 line_volume)) v
                 \<le> lookup3 (fst (skimage_label 2 line_volume)) u))
   \<and> keep_largest_region line_volume = Inr [[[True, True, False, False]]]"
proof -
  have any: "np_any line_volume" by code_simp
  have result: "keep_largest_region line_volume = Inr [[[True, True, False, False]]]"
    by code_simp
  show ?thesis
    using any result keep_largest_keeps_largest_region[THEN conjunct2, THEN mp, OF any]
    by (intro conjI)
qed

text \<open>
  The claim as stated fails: two true voxels that touch at a corner are neighbours
  under 26-connectivity, one region of two voxels, and the filter keeps one of them only.
\<close>

theorem corner_neighbours_are_separated:
  "lookup3 corner_volume (0, 0, 0) \<and> lookup3 corner_volume (1, 1, 1)
   \<and> neighbours 3 (0, 0, 0) (1, 1, 1)
   \<and> keep_largest_region corner_volume
       = Inr [[[True, False], [False, False]], [[False, False], [False, False]]]"
  by code_simp


subsection \<open>The orientation of the synthetic grid\<close>

lemma collected_contours_nonempty:
  assumes "collect_contours roi = Inr (Some objs)"
  shows "\<forall>obj \<in> set objs. contour obj \<noteq> []"
proof -
  have "\<And>objs. collect_contour_objects cs = Inr objs \<Longrightarrow> \<forall>obj \<in> set objs. contour obj \<noteq> []" for cs
    by (induction cs) (auto split: if_splits option.splits sum.splits)
  then show ?thesis
    using assms by (auto simp: collect_contours_def split: sum.splits if_splits)
qed

lemma flip_negative_columns_signs:
  "\<exists>s0 \<in> {1, - 1}. \<exists>s1 \<in> {1, - 1}. \<exists>s2 \<in> {1, - 1}.
     flip_negative_columns m = scale_columns (s0, s1, s2) m"
proof -
  obtain a b c d e f g h i where m: "m = ((a, b, c), (d, e, f), (g, h, i))"
    by (metis prod_cases3)
  define s0 :: real where "s0 = (if a + d + g < 0 then - 1 else 1)"
  define s1 :: real where "s1 = (if b + e + h < 0 then - 1 else 1)"
  define s2 :: real where "s2 = (if c + f + i < 0 then - 1 else 1)"
  have "flip_negative_columns m = scale_columns (s0, s1, s2) m"
    unfolding m flip_negative_columns_def scale_columns_def s0_def s1_def s2_def
    by (simp add: Let_def)
  moreover have "s0 \<in> {1, - 1}" "s1 \<in> {1, - 1}" "s2 \<in> {1, - 1}"
    unfolding s0_def s1_def s2_def by simp_all
  ultimately show ?thesis by blast
qed

lemma scale_columns_one: "scale_columns (1, 1, 1) m = m"
  by (simp add: scale_columns_def split: prod.splits)

lemma mask_orientation_signs:
  "\<exists>s0 \<in> {1, - 1}. \<exists>s1 \<in> {1, - 1}. \<exists>s2 \<in> {1, - 1}.
     mask_orientation_of U = scale_columns (s0, s1, s2) (reverse_columns U)"
proof (cases "det3 (reverse_columns U) = - 1")
  case True
  then have "mask_orientation_of U = flip_negative_columns (reverse_columns U)"
    by (simp add: mask_orientation_of_def Let_def)
  then show ?thesis using flip_negative_columns_signs[of "reverse_columns U"] by simp
next
  case False
  then have "mask_orientation_of U = scale_columns (1, 1, 1) (reverse_columns U)"
    by (simp add: mask_orientation_of_def Let_def scale_columns_one)
  then show ?thesis by blast
qed

lemma create_image_orientation:
  assumes "collect_contours roi = Inr (Some (first_contour # others))"
  shows "(use_position \<longrightarrow>
            create_image_from_contour c roi img use_orientation use_position =
              Inr (img\<lparr>image_orientation :=
                mask_orientation_of (svd_U c (mean_centre (concat (contour first_contour))))\<rparr>))
         \<and> (\<forall>synthesized.
               create_image_from_contour c roi img use_orientation use_position = Inr synthesized \<longrightarrow>
               image_orientation synthesized =
                 mask_orientation_of (svd_U c (mean_centre (concat (contour first_contour)))))"
proof -
  have "contour first_contour \<noteq> []"
    using collected_contours_nonempty[OF assms] by simp
  then have pts: "orientation_points (first_contour # others) = Inr (concat (contour first_contour))"
    by (simp add: orientation_points_def)
  show ?thesis
    by (auto simp: create_image_from_contour_def assms pts split: sum.splits prod.splits)
qed

lemma collect_tall:
  "collect_contours tall_roi =
     Inr (Some [\<lparr>contour = [rectangle_points 0]\<rparr>, \<lparr>contour = [rectangle_points 100]\<rparr>])"
  unfolding tall_roi_def rectangle_points_def by (rule collect_two_contours)

lemma scatter_tall:
  "scatter (mean_centre (rectangle_points 0 @ rectangle_points 100)) =
     ((20000, 0, 0), (0, 8, 0), (0, 0, 32))"
  by (simp add: scatter_def mean_centre_def rectangle_points_def Let_def)

lemma tall_cloud_basis:
  assumes "left_singular_basis U (mean_centre (rectangle_points 0 @ rectangle_points 100))"
    and "s0 \<in> {1, - 1}" and "s1 \<in> {1, - 1}" and "s2 \<in> {1, - 1}"
    and "((1, 0, 0), (0, 1, 0), (0, 0, 1)) = scale_columns (s0, s1, s2) (reverse_columns U)"
  shows False
proof -
  obtain a b c d e f g h i where U: "U = ((a, b, c), (d, e, f), (g, h, i))"
    by (metis prod_cases3)
  have eqs: "s0 * c = 1" "s0 * f = 0" "s0 * i = 0" "s1 * b = 0" "s1 * e = 1" "s1 * h = 0"
    using assms(5) unfolding U by (simp_all add: scale_columns_def reverse_columns_def)
  have "s0 \<noteq> 0" "s1 \<noteq> 0" using assms(2,3) by auto
  then have z: "f = 0" "i = 0" "b = 0" "h = 0" using eqs by simp_all
  have "dot3 (c, f, i) (mat_vec ((20000, 0, 0), (0, 8, 0), (0, 0, 32)) (c, f, i))
          \<le> dot3 (b, e, h) (mat_vec ((20000, 0, 0), (0, 8, 0), (0, 0, 32)) (b, e, h))"
    using assms(1) unfolding U left_singular_basis_def scatter_tall
    by (simp add: transpose3_def Let_def)
  then have "20000 * (c * c) \<le> 8 * (e * e)"
    by (simp add: dot3_def mat_vec_def z)
  moreover have "c * c = 1" "e * e = 1" using eqs(1,5) assms(2,3) by auto
  ultimately show False by simp
qed

text \<open>
  Claim C5, as the code has it. Whenever the contours of the ROI can be collected, the
  orientation of the synthesized grid is computed from the points of the first collected
  contour alone: it is the matrix of the decomposition of these mean-centred points with
  its columns in reversed order, each column kept or negated. The later contours and the
  argument \<open>use_orientation\<close> have no part in it. With \<open>use_position\<close> the geometry of the
  template is kept and the function returns.
\<close>

theorem orientation_from_first_contour:
  assumes "collect_contours roi = Inr (Some (first_contour # others))"
  shows "(use_position \<longrightarrow>
            create_image_from_contour c roi img use_orientation use_position =
              Inr (img\<lparr>image_orientation :=
                mask_orientation_of (svd_U c (mean_centre (concat (contour first_contour))))\<rparr>))
         \<and> (\<forall>synthesized.
               create_image_from_contour c roi img use_orientation use_position = Inr synthesized \<longrightarrow>
               image_orientation synthesized =
                 mask_orientation_of (svd_U c (mean_centre (concat (contour first_contour)))))
         \<and> (\<exists>s0 \<in> {1, - 1}. \<exists>s1 \<in> {1, - 1}. \<exists>s2 \<in> {1, - 1}.
               mask_orientation_of (svd_U c (mean_centre (concat (contour first_contour)))) =
                 scale_columns (s0, s1, s2)
                   (reverse_columns (svd_U c (mean_centre (concat (contour first_contour))))))"
  using create_image_orientation[OF assms] mask_orientation_signs by blast

text \<open>
  Two rectangles at the slice positions 1/2 and 3/2: with the geometry of the template
  and on the synthetic grid, the orientation is the reversed sample decomposition.
\<close>

theorem orientation_from_first_contour_witness:
  "create_image_from_contour sample_collaborators off_grid_roi unit_image True True =
     Inr (unit_image\<lparr>image_orientation := ((1, 0, 0), (0, 1, 0), (0, 0, 1))\<rparr>)
   \<and> image_orientation synthetic_image = ((1, 0, 0), (0, 1, 0), (0, 0, 1))
   \<and> (\<exists>s0 \<in> {1, - 1}. \<exists>s1 \<in> {1, - 1}. \<exists>s2 \<in> {1, - 1}.
        ((1, 0, 0), (0, 1, 0), (0, 0, 1)) =
          scale_columns (s0, s1, s2) (reverse_columns ((0, 0, 1), (0, 1, 0), (1, 0, 0))))"
proof -
  have svd: "svd_U sample_collaborators pts = ((0, 0, 1), (0, 1, 0), (1, 0, 0))" for pts
    by (simp add: sample_collaborators_def)
  note a = orientation_from_first_contour[OF collect_off_grid, of True sample_collaborators
      unit_image True, unfolded sample_orientation]
  note b = orientation_from_first_contour[OF collect_off_grid, of False sample_collaborators
      unit_image True, unfolded sample_orientation]
  have "create_image_from_contour sample_collaborators off_grid_roi unit_image True True =
     Inr (unit_image\<lparr>image_orientation := ((1, 0, 0), (0, 1, 0), (0, 0, 1))\<rparr>)"
    using a by simp
  moreover have "image_orientation synthetic_image = ((1, 0, 0), (0, 1, 0), (0, 0, 1))"
    using b create_off_grid_image by simp
  moreover have "\<exists>s0 \<in> {1, - 1}. \<exists>s1 \<in> {1, - 1}. \<exists>s2 \<in> {1, - 1}.
        ((1, 0, 0), (0, 1, 0), (0, 0, 1)) =
          scale_columns (s0, s1, s2) (reverse_columns ((0::real, 0::real, 1::real), (0::real, 1::real, 0::real), (1::real, 0::real, 0::real)))"
    using a unfolding svd by blast
  ultimately show ?thesis by blast
qed

text \<open>
  Two rectangles, 100 apart along the first axis. The sample decomposition is a
  decomposition of the centred points of the first rectangle, and the synthesized
  orientation is the identity. The centred points of both rectangles spread most along
  the first axis: no left singular basis of this cloud gives the identity when its
  columns are reversed and negated at will.
\<close>

theorem orientation_ignores_later_contours:
  "collect_contours tall_roi =
     Inr (Some [\<lparr>contour = [rectangle_points 0]\<rparr>, \<lparr>contour = [rectangle_points 100]\<rparr>])
   \<and> left_singular_basis (svd_U sample_collaborators (mean_centre (rectangle_points 0)))
       (mean_centre (rectangle_points 0))
   \<and> create_image_from_contour sample_collaborators tall_roi unit_image True False =
       Inr (unit_image\<lparr>image_spacing := (100, 1, 1), image_origin := (0, 0, 0),
              image_dimension := (1, 4, 6),
              image_orientation := ((1, 0, 0), (0, 1, 0), (0, 0, 1))\<rparr>)
   \<and> \<not> (\<exists>U. \<exists>s0 \<in> {1, - 1}. \<exists>s1 \<in> {1, - 1}. \<exists>s2 \<in> {1, - 1}.
          left_singular_basis U (mean_centre (rectangle_points 0 @ rectangle_points 100))
          \<and> ((1, 0, 0), (0, 1, 0), (0, 0, 1)) = scale_columns (s0, s1, s2) (reverse_columns U))"
proof -
  have "left_singular_basis (svd_U sample_collaborators (mean_centre (rectangle_points 0)))
       (mean_centre (rectangle_points 0))"
    by code_simp
  moreover have "create_image_from_contour sample_collaborators tall_roi unit_image True False =
       Inr (unit_image\<lparr>image_spacing := (100, 1, 1), image_origin := (0, 0, 0),
              image_dimension := (1, 4, 6),
              image_orientation := ((1, 0, 0), (0, 1, 0), (0, 0, 1))\<rparr>)"
    by code_simp
  moreover have "\<not> (\<exists>U. \<exists>s0 \<in> {1, - 1}. \<exists>s1 \<in> {1, - 1}. \<exists>s2 \<in> {1, - 1}.
          left_singular_basis U (mean_centre (rectangle_points 0 @ rectangle_points 100))
          \<and> ((1, 0, 0), (0, 1, 0), (0, 0, 1)) = scale_columns (s0, s1, s2) (reverse_columns U))"
    using tall_cloud_basis by blast
  ultimately show ?thesis using collect_tall by blast
qed

text \<open>
  A rectangle that is longer along the second axis than along the third. The matrix
  below is a left singular basis of its centred points; the reversed matrix has
  determinant -1 and no column with a negative sum, so it is returned as it is.
\<close>

lemma reversed_basis_left_handed:
  "left_singular_basis ((0, 0, 1), (1, 0, 0), (0, 1, 0)) (mean_centre upright_points)
   \<and> det3 (mask_orientation_of ((0, 0, 1), (1, 0, 0), (0, 1, 0))) = - 1"
  by code_simp

end
